theory Spec2Isabelle
  imports Complex_Main
begin

section \<open>The anim subcommand of pyani: data model\<close>

text \<open>
  This theory embeds \<^verbatim>\<open>src/pyani/scripts/subcommands/subcmd_anim.py\<close>.
  Conventions of the embedding:
  \<^item> Python integers are \<open>int\<close>; Python floats are idealised as \<open>real\<close>, with the
    \<^verbatim>\<open>ZeroDivisionError\<close> of true division written out;
  \<^item> an exception is a value \<open>Inl\<close> of a sum type; where the state reached at the raise
    matters, the error carries that state;
  \<^item> calls of the logger and of \<^verbatim>\<open>tqdm\<close> have no effect on any value and are left out;
  \<^item> what lives in other modules of the package (\<^verbatim>\<open>anim\<close>, \<^verbatim>\<open>run_multiprocessing\<close>,
    \<^verbatim>\<open>run_sge\<close>, \<^verbatim>\<open>pyani_orm\<close>, \<^verbatim>\<open>pyani_config\<close>) and the file system are fields
    of an environment record \<open>env\<close>, so that every theorem holds for all their behaviours;
  \<^item> names are those of the source, except where two records share an attribute name or
    the name is taken: \<open>genome_length\<close> is \<^verbatim>\<open>Genome.length\<close>, \<open>args_name\<close> and
    \<open>args_maxmatch\<close> are \<^verbatim>\<open>args.name\<close> and \<^verbatim>\<open>args.maxmatch\<close>, \<open>job_query\<close>,
    \<open>job_subject\<close> and \<open>job_node\<close> are the fields \<^verbatim>\<open>query\<close>, \<^verbatim>\<open>subject\<close> and
    \<^verbatim>\<open>job\<close> of a ComparisonJob, and the local frames of
    \<^verbatim>\<open>update_comparison_matrices\<close> are the fields of the record \<open>frames\<close>.
\<close>

datatype error =
    ZeroDivisionError
  | TypeError
  | AttributeError
  | IndexError
  | KeyError
  | IOError
  | PyaniException string
  | SystemExit int
  | SystemError int

text \<open>Rows of the Genome table, as far as the subcommand reads them.\<close>

record genome =
  genome_id :: int
  path :: string
  genome_length :: int
  description :: string

text \<open>
  A Comparison object. The ORM gives it the relationships \<^verbatim>\<open>query\<close> and \<^verbatim>\<open>subject\<close>
  and the columns \<^verbatim>\<open>query_id\<close> and \<^verbatim>\<open>subject_id\<close>, which hold the identifiers of
  the two related genomes.
\<close>

record comparison =
  query :: genome
  subject :: genome
  aln_length :: int
  sim_errs :: int
  identity :: real
  cov_query :: real
  cov_subject :: real
  program :: string
  version :: string
  fragsize :: "int option"
  maxmatch :: bool

definition query_id :: "comparison \<Rightarrow> int" where
  "query_id c = genome_id (query c)"

definition subject_id :: "comparison \<Rightarrow> int" where
  "subject_id c = genome_id (subject c)"

text \<open>A node of the dependency graph: \<^verbatim>\<open>pyani_jobs.Job\<close> with its dependencies.\<close>

datatype job = Job (job_name: string) (job_command: string) (job_dependencies: "job list")

definition add_dependency :: "job \<Rightarrow> job \<Rightarrow> job" where
  "add_dependency j d = Job (job_name j) (job_command j) (job_dependencies j @ [d])"

text \<open>The named tuple \<^verbatim>\<open>ComparisonJob(query subject filtercmd nucmercmd outfile job)\<close>.\<close>

record comparison_job =
  job_query :: genome
  job_subject :: genome
  filtercmd :: string
  nucmercmd :: string
  outfile :: string
  job_node :: job

text \<open>The command-line namespace \<^verbatim>\<open>args\<close>, with the attributes the subcommand reads.\<close>

record args =
  args_name :: "string option"
  dbpath :: string
  cmdline :: string
  indir :: string
  outdir :: string
  classes :: string
  labels :: string
  nucmer_exe :: string
  filter_exe :: string
  args_maxmatch :: bool
  nofilter :: bool
  recovery :: bool
  scheduler :: string
  workers :: "nat option"
  sgegroupsize :: nat
  sgeargs :: string
  jobprefix :: string

text \<open>
  A pandas DataFrame of floats with integer labels on both axes. A cell holding NaN
  (never assigned) is \<open>None\<close>. Cells are addressed by (row label, column label); the
  model is that of a frame whose labels are distinct on each axis.
\<close>

record dataframe =
  df_index :: "int list"
  df_columns :: "int list"
  df_values :: "int \<times> int \<Rightarrow> real option"

text \<open>
  The Run object: the genomes and comparisons related to it, and the five matrix columns,
  \<open>None\<close> until they are assigned. The JSON serialisation of a frame is not modelled: the
  column holds the frame.
\<close>

record run =
  run_method :: string
  run_cmdline :: string
  run_status :: string
  run_name :: string
  run_genomes :: "genome list"
  run_comparisons :: "comparison list"
  df_identity :: "dataframe option"
  df_coverage :: "dataframe option"
  df_alnlength :: "dataframe option"
  df_simerrors :: "dataframe option"
  df_hadamard :: "dataframe option"

text \<open>
  The database session: \<open>comparison_table\<close> is the committed content of the Comparison
  table (what \<^verbatim>\<open>session.query(Comparison).all()\<close> returns), \<open>pending\<close> the Comparison
  objects added to the session and not yet committed, and \<open>the_run\<close> the Run object of
  this invocation.
\<close>

record session =
  comparison_table :: "comparison list"
  pending :: "comparison list"
  the_run :: run

definition commit :: "session \<Rightarrow> session" where
  "commit s = s\<lparr>comparison_table := comparison_table s @ pending s, pending := []\<rparr>"

text \<open>
  The environment: the collaborators outside the file. \<open>get_version\<close> is
  \<^verbatim>\<open>anim.get_version\<close>, \<open>construct_nucmer_cmdline\<close> and \<open>parse_delta\<close> are the
  functions of the module \<^verbatim>\<open>anim\<close>, \<open>mp_run_dependency_graph\<close> and
  \<open>sge_run_dependency_graph\<close> the two executors, \<open>listdir\<close> is \<^verbatim>\<open>os.listdir\<close>,
  \<open>aligndir\<close> is \<^verbatim>\<open>pyani_config.ALIGNDIR["ANIm"]\<close>. The four flags say whether
  connecting to the database, adding the run, adding the genomes and creating the output
  directory succeed; \<open>added_genomes\<close> is what \<^verbatim>\<open>run.genomes.all()\<close> returns after
  \<^verbatim>\<open>add_run_genomes\<close>; \<open>now_isoformat\<close> is the start time as text.
\<close>

record env =
  get_version :: "string \<Rightarrow> string"
  now_isoformat :: string
  get_session_ok :: bool
  add_run_ok :: bool
  add_run_genomes_ok :: bool
  added_genomes :: "genome list"
  makedirs_ok :: bool
  aligndir :: string
  listdir :: "string \<Rightarrow> string list"
  construct_nucmer_cmdline ::
    "string \<Rightarrow> string \<Rightarrow> string \<Rightarrow> string \<Rightarrow> string \<Rightarrow> bool \<Rightarrow> string \<times> string"
  parse_delta :: "string \<Rightarrow> error + (int \<times> int)"
  mp_run_dependency_graph :: "job list \<Rightarrow> nat option \<Rightarrow> int"
  sge_run_dependency_graph :: "job list \<Rightarrow> string \<Rightarrow> nat \<Rightarrow> string \<Rightarrow> unit"

section \<open>Library functions of Python used by the subcommand\<close>

text \<open>True division \<^verbatim>\<open>a / b\<close> of two integers: a float, or \<^verbatim>\<open>ZeroDivisionError\<close>.\<close>

definition truediv :: "int \<Rightarrow> int \<Rightarrow> error + real" where
  "truediv a b = (if b = 0 then Inl ZeroDivisionError else Inr (real_of_int a / real_of_int b))"

text \<open>\<^verbatim>\<open>itertools.combinations(xs, 2)\<close>: the pairs of positions \<open>i < j\<close>, in order.\<close>

fun combinations2 :: "'a list \<Rightarrow> ('a \<times> 'a) list" where
  "combinations2 [] = []"
| "combinations2 (x # xs) = map (Pair x) xs @ combinations2 xs"

text \<open>
  \<^verbatim>\<open>str.split()\<close> with no argument: the maximal runs of non-whitespace characters.
  A character is a code point below 256, and the whitespace characters are those of
  Python in that range: space, tab, line feed, vertical tab, form feed, carriage return,
  the four separators 0x1C to 0x1F, next line (0x85) and no-break space (0xA0).
\<close>

definition isspace :: "char \<Rightarrow> bool" where
  "isspace c = (c = CHR '' '' \<or> c = CHR 0x09 \<or> c = CHR 0x0A \<or> c = CHR 0x0B
                \<or> c = CHR 0x0C \<or> c = CHR 0x0D \<or> c = CHR 0x1C \<or> c = CHR 0x1D
                \<or> c = CHR 0x1E \<or> c = CHR 0x1F \<or> c = CHR 0x85 \<or> c = CHR 0xA0)"

fun split_ws :: "string \<Rightarrow> string \<Rightarrow> string list" where
  "split_ws tok [] = (if tok = [] then [] else [tok])"
| "split_ws tok (c # cs) =
     (if isspace c then (if tok = [] then split_ws [] cs else tok # split_ws [] cs)
      else split_ws (tok @ [c]) cs)"

definition str_split :: "string \<Rightarrow> string list" where
  "str_split s = split_ws [] s"

text \<open>Indexing a list with a non-negative index: \<^verbatim>\<open>IndexError\<close> out of range.\<close>

definition getitem :: "'a list \<Rightarrow> nat \<Rightarrow> error + 'a" where
  "getitem xs i = (if i < length xs then Inr (xs ! i) else Inl IndexError)"

text \<open>\<^verbatim>\<open>os.path.split(p)[-1]\<close>: what follows the last slash.\<close>

definition path_tail :: "string \<Rightarrow> string" where
  "path_tail p = rev (takeWhile (\<lambda>c. c \<noteq> CHR ''/'') (rev p))"

text \<open>
  \<^verbatim>\<open>os.path.splitext(p)[-1]\<close>: the extension starts at the last dot of the last path
  component, unless only dots (or nothing) precede that dot in the component.
\<close>

definition splitext_ext :: "string \<Rightarrow> string" where
  "splitext_ext p =
     (let base = path_tail p;
          after = rev (takeWhile (\<lambda>c. c \<noteq> CHR ''.'') (rev base));
          stem = take (length base - length after - 1) base
      in if CHR ''.'' \<notin> set base then []
         else if filter (\<lambda>c. c \<noteq> CHR ''.'') stem = [] then []
         else CHR ''.'' # after)"

text \<open>\<^verbatim>\<open>os.path.join(a, b)\<close> on a POSIX system.\<close>

definition path_join :: "string \<Rightarrow> string \<Rightarrow> string" where
  "path_join a b =
     (if b \<noteq> [] \<and> hd b = CHR ''/'' then b
      else if a = [] \<or> last a = CHR ''/'' then a @ b
      else a @ ''/'' @ b)"

text \<open>The format \<^verbatim>\<open>%06d\<close> of a non-negative integer.\<close>

fun digits :: "nat \<Rightarrow> string" where
  "digits n =
     (if n < 10 then [char_of (48 + n)] else digits (n div 10) @ [char_of (48 + n mod 10)])"

declare digits.simps [simp del]

definition format_06d :: "nat \<Rightarrow> string" where
  "format_06d n = replicate (6 - length (digits n)) (CHR ''0'') @ digits n"

text \<open>
  The membership test \<^verbatim>\<open>x in xs\<close>, where \<^verbatim>\<open>xs\<close> is a list or \<^verbatim>\<open>None\<close>: on
  \<^verbatim>\<open>None\<close> Python raises \<^verbatim>\<open>TypeError\<close> (the argument is not iterable).
\<close>

definition py_in :: "'a \<Rightarrow> 'a list option \<Rightarrow> error + bool" where
  "py_in x xs = (case xs of None \<Rightarrow> Inl TypeError | Some ys \<Rightarrow> Inr (x \<in> set ys))"

section \<open>The deduplication step of \<^verbatim>\<open>subcmd_anim\<close>\<close>

type_synonym comparison_key = "int \<times> int \<times> string \<times> string \<times> int option \<times> bool"

text \<open>The key of the dictionary comprehension (lines 189-192).\<close>

definition key_of :: "comparison \<Rightarrow> comparison_key" where
  "key_of c = (query_id c, subject_id c, program c, version c, fragsize c, maxmatch c)"

text \<open>
  The dictionary \<^verbatim>\<open>existing_comparisons\<close>: the comprehension stores the comparisons of
  the table one after the other, a later one replacing an earlier one with the same key.
\<close>

definition existing_comparisons :: "comparison list \<Rightarrow> (comparison_key \<rightharpoonup> comparison)" where
  "existing_comparisons cs = foldl (\<lambda>m c. m(key_of c \<mapsto> c)) Map.empty cs"

definition append_existing :: "comparison \<Rightarrow> session \<Rightarrow> session" where
  "append_existing c s =
     s\<lparr>the_run := (the_run s)\<lparr>run_comparisons := run_comparisons (the_run s) @ [c]\<rparr>\<rparr>"

text \<open>
  The loop of lines 197-214. A key that is found appends the stored comparison to
  \<^verbatim>\<open>run.comparisons\<close> and commits; a \<^verbatim>\<open>KeyError\<close> appends the pair to
  \<^verbatim>\<open>comparisons_to_run\<close>.
\<close>

fun reduce_comparisons ::
  "(comparison_key \<rightharpoonup> comparison) \<Rightarrow> string \<Rightarrow> args \<Rightarrow> (genome \<times> genome) list \<Rightarrow>
   session \<Rightarrow> (genome \<times> genome) list \<Rightarrow> session \<times> (genome \<times> genome) list" where
  "reduce_comparisons ex nucmer_version a [] s comparisons_to_run = (s, comparisons_to_run)"
| "reduce_comparisons ex nucmer_version a ((query_genome, subject_genome) # rest) s
     comparisons_to_run =
     (case ex (genome_id query_genome, genome_id subject_genome, ''nucmer'', nucmer_version,
               None, args_maxmatch a) of
        Some c \<Rightarrow>
          reduce_comparisons ex nucmer_version a rest (commit (append_existing c s))
            comparisons_to_run
      | None \<Rightarrow>
          reduce_comparisons ex nucmer_version a rest s
            (comparisons_to_run @ [(query_genome, subject_genome)]))"

section \<open>\<^verbatim>\<open>generate_joblist\<close>\<close>

definition expected_outfname :: "args \<Rightarrow> string \<Rightarrow> string" where
  "expected_outfname a outprefix =
     (if nofilter a then outprefix @ ''.delta'' else outprefix @ ''.filter'')"

definition build_job ::
  "args \<Rightarrow> nat \<Rightarrow> genome \<Rightarrow> genome \<Rightarrow> string \<Rightarrow> string \<Rightarrow> string \<Rightarrow> comparison_job" where
  "build_job a idx q sb ncmd dcmd outfname =
     (let njob = Job (jobprefix a @ ''_'' @ format_06d idx @ ''-n'') ncmd [];
          fjob = Job (jobprefix a @ ''_'' @ format_06d idx @ ''-f'') dcmd [];
          fjob = add_dependency fjob njob
      in \<lparr>job_query = q, job_subject = sb, filtercmd = dcmd, nucmercmd = ncmd,
          outfile = outfname, job_node = fjob\<rparr>)"

text \<open>
  The loop of lines 269-303, with the index of \<^verbatim>\<open>enumerate\<close> and the list built so
  far. \<^verbatim>\<open>ncmd.split()[3]\<close> raises \<^verbatim>\<open>IndexError\<close> on a command of fewer than four
  words; the membership test is evaluated only when \<^verbatim>\<open>args.recovery\<close> is true.
\<close>

fun generate_joblist_loop ::
  "env \<Rightarrow> string list option \<Rightarrow> args \<Rightarrow> nat \<Rightarrow> (genome \<times> genome) list \<Rightarrow>
   comparison_job list \<Rightarrow> error + comparison_job list" where
  "generate_joblist_loop e existingfiles a idx [] joblist = Inr joblist"
| "generate_joblist_loop e existingfiles a idx ((q, sb) # rest) joblist =
     (case construct_nucmer_cmdline e (path q) (path sb) (outdir a) (nucmer_exe a)
             (filter_exe a) (args_maxmatch a) of
        (ncmd, dcmd) \<Rightarrow>
          (case getitem (str_split ncmd) 3 of
             Inl err \<Rightarrow> Inl err
           | Inr outprefix \<Rightarrow>
               (let outfname = expected_outfname a outprefix in
                case (if recovery a then py_in (path_tail outfname) existingfiles
                      else Inr False) of
                  Inl err \<Rightarrow> Inl err
                | Inr True \<Rightarrow> generate_joblist_loop e existingfiles a (Suc idx) rest joblist
                | Inr False \<Rightarrow>
                    generate_joblist_loop e existingfiles a (Suc idx) rest
                      (joblist @ [build_job a idx q sb ncmd dcmd outfname]))))"

definition generate_joblist ::
  "env \<Rightarrow> (genome \<times> genome) list \<Rightarrow> string list option \<Rightarrow> args \<Rightarrow>
   error + comparison_job list" where
  "generate_joblist e comparisons existingfiles a =
     generate_joblist_loop e existingfiles a 0 comparisons []"

section \<open>\<^verbatim>\<open>collect_existing_output\<close>\<close>

text \<open>
  The body of lines 314-324. The list \<^verbatim>\<open>existingfiles\<close> is computed and the function
  ends without a \<^verbatim>\<open>return\<close> statement, so its value is \<^verbatim>\<open>None\<close>.
\<close>

definition collect_existing_output :: "env \<Rightarrow> string \<Rightarrow> args \<Rightarrow> string list option" where
  "collect_existing_output e dirpath a =
     (let suffix = (if nofilter a then ''.delta'' else ''.filter'');
          existingfiles = filter (\<lambda>fname. splitext_ext fname = suffix) (listdir e dirpath)
      in None)"

text \<open>
  A call of the function with a list of positional arguments. The signature is
  \<^verbatim>\<open>(dirpath, args, logger)\<close>, all three required: any other number of arguments is a
  \<^verbatim>\<open>TypeError\<close> at the call; three arguments that are not a path, a namespace and a
  logger fail in the body on a missing attribute.
\<close>

datatype pyval = PStr string | PArgs args | PLogger

fun call_collect_existing_output :: "env \<Rightarrow> pyval list \<Rightarrow> error + string list option" where
  "call_collect_existing_output e [PStr dirpath, PArgs a, PLogger] =
     Inr (collect_existing_output e dirpath a)"
| "call_collect_existing_output e [_, _, _] = Inl AttributeError"
| "call_collect_existing_output e _ = Inl TypeError"

section \<open>\<^verbatim>\<open>run_anim_jobs\<close>\<close>

definition run_anim_jobs :: "env \<Rightarrow> comparison_job list \<Rightarrow> args \<Rightarrow> error + unit" where
  "run_anim_jobs e joblist a =
     (if scheduler a = ''multiprocessing'' then
        (let cumval = mp_run_dependency_graph e (map job_node joblist) (workers a)
         in if 0 < cumval then Inl (PyaniException ''Multiprocessing run failed in ANIm'')
            else Inr ())
      else
        Inr (sge_run_dependency_graph e (map job_node joblist) (jobprefix a)
               (sgegroupsize a) (sgeargs a)))"

section \<open>\<^verbatim>\<open>update_comparison_results\<close>\<close>

text \<open>
  \<^verbatim>\<open>run.comparisons.append(Comparison(...))\<close>: the new object joins the comparisons of
  the run and, through the relationship, the objects the session will insert at the next
  commit.
\<close>

definition append_new :: "comparison \<Rightarrow> session \<Rightarrow> session" where
  "append_new c s =
     s\<lparr>pending := pending s @ [c],
       the_run := (the_run s)\<lparr>run_comparisons := run_comparisons (the_run s) @ [c]\<rparr>\<rparr>"

text \<open>
  The loop of lines 383-403. An exception leaves the loop with the session as it is at
  that moment: the commit of line 407 is not reached.
\<close>

fun update_comparison_results_loop ::
  "env \<Rightarrow> string \<Rightarrow> args \<Rightarrow> comparison_job list \<Rightarrow> session \<Rightarrow> (error \<times> session) + session" where
  "update_comparison_results_loop e nucmer_version a [] s = Inr s"
| "update_comparison_results_loop e nucmer_version a (j # joblist) s =
     (case parse_delta e (outfile j) of
        Inl err \<Rightarrow> Inl (err, s)
      | Inr (aln, errs) \<Rightarrow>
          (case truediv aln (genome_length (job_query j)) of
             Inl err \<Rightarrow> Inl (err, s)
           | Inr qcov \<Rightarrow>
               (case truediv aln (genome_length (job_subject j)) of
                  Inl err \<Rightarrow> Inl (err, s)
                | Inr scov \<Rightarrow>
                    (case truediv errs aln of
                       Inl err \<Rightarrow> Inl (err, s)
                     | Inr ratio \<Rightarrow>
                         update_comparison_results_loop e nucmer_version a joblist
                           (append_new
                              \<lparr>query = job_query j, subject = job_subject j,
                               aln_length = aln, sim_errs = errs, identity = 1 - ratio,
                               cov_query = qcov, cov_subject = scov,
                               program = ''nucmer'', version = nucmer_version,
                               fragsize = None, maxmatch = args_maxmatch a\<rparr> s)))))"

definition update_comparison_results ::
  "env \<Rightarrow> comparison_job list \<Rightarrow> session \<Rightarrow> string \<Rightarrow> args \<Rightarrow> (error \<times> session) + session" where
  "update_comparison_results e joblist s nucmer_version a =
     (case update_comparison_results_loop e nucmer_version a joblist s of
        Inl x \<Rightarrow> Inl x
      | Inr s' \<Rightarrow> Inr (commit s'))"

section \<open>\<^verbatim>\<open>update_comparison_matrices\<close>\<close>

text \<open>\<^verbatim>\<open>pd.DataFrame(index=ids, columns=ids, dtype=float)\<close>: every cell is NaN.\<close>

definition new_frame :: "int list \<Rightarrow> dataframe" where
  "new_frame ids = \<lparr>df_index = ids, df_columns = ids, df_values = (\<lambda>_. None)\<rparr>"

text \<open>
  \<^verbatim>\<open>np.fill_diagonal(df.values, v)\<close> writes the cells at equal row and column
  positions.
\<close>

definition fill_diagonal :: "dataframe \<Rightarrow> real \<Rightarrow> dataframe" where
  "fill_diagonal df v =
     df\<lparr>df_values := foldl (\<lambda>m rc. m(rc \<mapsto> v)) (df_values df)
                         (zip (df_index df) (df_columns df))\<rparr>"

text \<open>
  \<^verbatim>\<open>df.loc[r, c] = v\<close>: the cell is written; a label that an axis does not have yet is
  added at its end (pandas enlarges the frame).
\<close>

definition loc_set :: "dataframe \<Rightarrow> int \<Rightarrow> int \<Rightarrow> real \<Rightarrow> dataframe" where
  "loc_set df r c v =
     \<lparr>df_index = (if r \<in> set (df_index df) then df_index df else df_index df @ [r]),
      df_columns = (if c \<in> set (df_columns df) then df_columns df else df_columns df @ [c]),
      df_values = (df_values df)((r, c) \<mapsto> v)\<rparr>"

text \<open>The five local frames of the function.\<close>

record frames =
  fr_identity :: dataframe
  fr_coverage :: dataframe
  fr_alnlength :: dataframe
  fr_simerrors :: dataframe
  fr_hadamard :: dataframe

text \<open>Line 433, for one genome.\<close>

definition set_genome_length :: "dataframe \<Rightarrow> genome \<Rightarrow> dataframe" where
  "set_genome_length df g = loc_set df (genome_id g) (genome_id g) (real_of_int (genome_length g))"

text \<open>Lines 437-447, for one comparison.\<close>

definition add_comparison :: "frames \<Rightarrow> comparison \<Rightarrow> frames" where
  "add_comparison fr c =
     (let qid = query_id c; sid = subject_id c in
      \<lparr>fr_identity = loc_set (loc_set (fr_identity fr) qid sid (identity c)) sid qid (identity c),
       fr_coverage =
         loc_set (loc_set (fr_coverage fr) qid sid (cov_query c)) sid qid (cov_subject c),
       fr_alnlength =
         loc_set (loc_set (fr_alnlength fr) qid sid (real_of_int (aln_length c))) sid qid
           (real_of_int (aln_length c)),
       fr_simerrors =
         loc_set (loc_set (fr_simerrors fr) qid sid (real_of_int (sim_errs c))) sid qid
           (real_of_int (sim_errs c)),
       fr_hadamard =
         loc_set (loc_set (fr_hadamard fr) qid sid (identity c * cov_query c)) sid qid
           (identity c * cov_subject c)\<rparr>)"

definition initial_frames :: "run \<Rightarrow> frames" where
  "initial_frames r =
     (let genome_ids = sort (map genome_id (run_genomes r)) in
      \<lparr>fr_identity = fill_diagonal (new_frame genome_ids) 1,
       fr_coverage = fill_diagonal (new_frame genome_ids) 1,
       fr_alnlength = foldl set_genome_length (new_frame genome_ids) (run_genomes r),
       fr_simerrors = fill_diagonal (new_frame genome_ids) 1,
       fr_hadamard = fill_diagonal (new_frame genome_ids) 1\<rparr>)"

definition update_comparison_matrices :: "session \<Rightarrow> args \<Rightarrow> session" where
  "update_comparison_matrices s a =
     (let r = the_run s;
          fr = foldl add_comparison (initial_frames r) (run_comparisons r)
      in commit
           (s\<lparr>the_run := r\<lparr>df_identity := Some (fr_identity fr),
                            df_coverage := Some (fr_coverage fr),
                            df_alnlength := Some (fr_alnlength fr),
                            df_simerrors := Some (fr_simerrors fr),
                            df_hadamard := Some (fr_hadamard fr)\<rparr>\<rparr>))"

section \<open>\<^verbatim>\<open>subcmd_anim\<close>\<close>

text \<open>The Run object of line 130 and the session that holds it.\<close>

definition new_run :: "env \<Rightarrow> args \<Rightarrow> run" where
  "new_run e a =
     \<lparr>run_method = ''ANIm'', run_cmdline = cmdline a, run_status = ''started'',
      run_name = (case args_name a of
                    None \<Rightarrow> ''ANIm_'' @ now_isoformat e
                  | Some n \<Rightarrow> if n = [] then ''ANIm_'' @ now_isoformat e else n),
      run_genomes = [], run_comparisons = [],
      df_identity = None, df_coverage = None, df_alnlength = None, df_simerrors = None,
      df_hadamard = None\<rparr>"

definition with_genomes :: "genome list \<Rightarrow> session \<Rightarrow> session" where
  "with_genomes gs s = s\<lparr>the_run := (the_run s)\<lparr>run_genomes := gs\<rparr>\<rparr>"

text \<open>
  The function, on the committed content \<open>db\<close> of the Comparison table. The error of a
  failed run carries the session at the raise (for a failure before the Run object is
  stored, the table as it is and the Run object that was to be stored). In recovery mode
  line 234 calls \<^verbatim>\<open>collect_existing_output(deltadir, args)\<close>, with two positional
  arguments. The session and its Run object are passed as one value: the functions that
  take \<^verbatim>\<open>run\<close> and \<^verbatim>\<open>session\<close> in the source take the session here.
\<close>

definition subcmd_anim :: "env \<Rightarrow> args \<Rightarrow> comparison list \<Rightarrow> (error \<times> session) + session" where
  "subcmd_anim e a db =
     (let nucmer_version = get_version e (nucmer_exe a);
          s0 = \<lparr>comparison_table = db, pending = [], the_run = new_run e a\<rparr>
      in if \<not> get_session_ok e then Inl (SystemExit 1, s0)
         else if \<not> add_run_ok e then Inl (SystemExit 1, s0)
         else if \<not> add_run_genomes_ok e then Inl (SystemExit 1, s0)
         else
           (let s1 = with_genomes (added_genomes e) s0;
                deltadir = path_join (outdir a) (aligndir e)
            in if \<not> makedirs_ok e then Inl (SystemError 1, s1)
               else
                 (let genomes = run_genomes (the_run s1);
                      comparisons = combinations2 genomes
                  in case reduce_comparisons (existing_comparisons (comparison_table s1))
                            nucmer_version a comparisons s1 [] of
                       (s2, comparisons_to_run) \<Rightarrow>
                         if length comparisons_to_run = 0
                         then Inr (update_comparison_matrices s2 a)
                         else
                           (case (if recovery a
                                  then call_collect_existing_output e [PStr deltadir, PArgs a]
                                  else Inr None) of
                              Inl err \<Rightarrow> Inl (err, s2)
                            | Inr existingfiles \<Rightarrow>
                                (case generate_joblist e comparisons_to_run existingfiles a of
                                   Inl err \<Rightarrow> Inl (err, s2)
                                 | Inr joblist \<Rightarrow>
                                     (case run_anim_jobs e joblist a of
                                        Inl err \<Rightarrow> Inl (err, s2)
                                      | Inr _ \<Rightarrow>
                                          (case update_comparison_results e joblist s2
                                                  nucmer_version a of
                                             Inl x \<Rightarrow> Inl x
                                           | Inr s3 \<Rightarrow>
                                               Inr (update_comparison_matrices s3 a))))))))"

section \<open>Names used in the statements\<close>

text \<open>The key that lines 202-209 look up for a candidate pair.\<close>

definition lookup_key :: "string \<Rightarrow> args \<Rightarrow> genome \<times> genome \<Rightarrow> comparison_key" where
  "lookup_key nv a p =
     (genome_id (fst p), genome_id (snd p), ''nucmer'', nv, None, args_maxmatch a)"

text \<open>The Comparison that lines 386-402 build for a job, from the two numbers parsed.\<close>

definition ingested :: "string \<Rightarrow> args \<Rightarrow> comparison_job \<Rightarrow> int \<Rightarrow> int \<Rightarrow> comparison" where
  "ingested nv a j aln errs =
     \<lparr>query = job_query j, subject = job_subject j, aln_length = aln, sim_errs = errs,
      identity = 1 - real_of_int errs / real_of_int aln,
      cov_query = real_of_int aln / real_of_int (genome_length (job_query j)),
      cov_subject = real_of_int aln / real_of_int (genome_length (job_subject j)),
      program = ''nucmer'', version = nv, fragsize = None, maxmatch = args_maxmatch a\<rparr>"


text \<open>
  The output prefix that \<^verbatim>\<open>generate_joblist\<close> reads from the alignment command of a
  pair, and the condition of line 295 under which the pair gets no job.
\<close>

definition outprefix_of :: "env \<Rightarrow> args \<Rightarrow> genome \<times> genome \<Rightarrow> error + string" where
  "outprefix_of e a p =
     getitem (str_split (fst (construct_nucmer_cmdline e (path (fst p)) (path (snd p)) (outdir a)
        (nucmer_exe a) (filter_exe a) (args_maxmatch a)))) 3"

definition recovered_pair :: "env \<Rightarrow> string list option \<Rightarrow> args \<Rightarrow> genome \<times> genome \<Rightarrow> bool" where
  "recovered_pair e existingfiles a p =
     (recovery a \<and>
      (case outprefix_of e a p of
         Inl _ \<Rightarrow> False
       | Inr outprefix \<Rightarrow>
           (case existingfiles of
              None \<Rightarrow> False
            | Some files \<Rightarrow> path_tail (expected_outfname a outprefix) \<in> set files)))"

text \<open>The pair of genomes of a job; the session in which a call ends, raised or returned.\<close>

definition job_pair :: "comparison_job \<Rightarrow> genome \<times> genome" where
  "job_pair j = (job_query j, job_subject j)"

definition final_session :: "(error \<times> session) + session \<Rightarrow> session" where
  "final_session r = (case r of Inl (err, s) \<Rightarrow> s | Inr s \<Rightarrow> s)"

text \<open>
  The steps before the deduplication succeed; the session when the loop starts; the work
  set and the reused records that the loop computes (see \<open>reduce_in_subcmd\<close>); the
  session when the loop ends.
\<close>

definition setup_ok :: "env \<Rightarrow> bool" where
  "setup_ok e = (get_session_ok e \<and> add_run_ok e \<and> add_run_genomes_ok e \<and> makedirs_ok e)"

definition start_session :: "env \<Rightarrow> args \<Rightarrow> comparison list \<Rightarrow> session" where
  "start_session e a db =
     with_genomes (added_genomes e) \<lparr>comparison_table = db, pending = [], the_run = new_run e a\<rparr>"

definition work_set :: "env \<Rightarrow> args \<Rightarrow> comparison list \<Rightarrow> (genome \<times> genome) list" where
  "work_set e a db =
     filter (\<lambda>p. lookup_key (get_version e (nucmer_exe a)) a p \<notin> key_of ` set db)
       (combinations2 (added_genomes e))"

definition reused :: "env \<Rightarrow> args \<Rightarrow> comparison list \<Rightarrow> comparison list" where
  "reused e a db =
     map (\<lambda>p. the (existing_comparisons db (lookup_key (get_version e (nucmer_exe a)) a p)))
       (filter (\<lambda>p. lookup_key (get_version e (nucmer_exe a)) a p \<in> key_of ` set db)
          (combinations2 (added_genomes e)))"

definition dedup_session :: "env \<Rightarrow> args \<Rightarrow> comparison list \<Rightarrow> session" where
  "dedup_session e a db =
     (start_session e a db)\<lparr>the_run :=
        (the_run (start_session e a db))\<lparr>run_comparisons := reused e a db\<rparr>\<rparr>"

text \<open>The five frames at the end of \<^verbatim>\<open>update_comparison_matrices\<close>.\<close>

definition final_frames :: "run \<Rightarrow> frames" where
  "final_frames r = foldl add_comparison (initial_frames r) (run_comparisons r)"

text \<open>
  The two cells that lines 438-447 write for a comparison; the writes of one frame over all
  the comparisons, with the value for each of the two cells; one write.
\<close>

definition cells_written :: "comparison \<Rightarrow> (int \<times> int) list" where
  "cells_written c = [(query_id c, subject_id c), (subject_id c, query_id c)]"

definition writes ::
  "(comparison \<Rightarrow> real) \<Rightarrow> (comparison \<Rightarrow> real) \<Rightarrow> comparison list \<Rightarrow> ((int \<times> int) \<times> real) list" where
  "writes f g cs =
     concat (map (\<lambda>c. [((query_id c, subject_id c), f c), ((subject_id c, query_id c), g c)]) cs)"

definition apply_write :: "dataframe \<Rightarrow> (int \<times> int) \<times> real \<Rightarrow> dataframe" where
  "apply_write df w = loc_set df (fst (fst w)) (snd (fst w)) (snd w)"

text \<open>The identifiers of the two genomes of a comparison and of a candidate pair.\<close>

definition id_pair :: "comparison \<Rightarrow> int \<times> int" where
  "id_pair c = (query_id c, subject_id c)"

definition genome_ids :: "genome \<times> genome \<Rightarrow> int \<times> int" where
  "genome_ids p = (genome_id (fst p), genome_id (snd p))"

section \<open>Concrete inputs\<close>

text \<open>
  Three genomes, a command line and an environment on which the statements below are
  evaluated. The environment's command builder writes the output prefix as the fourth
  word of the alignment command, as \<^verbatim>\<open>generate_joblist\<close> expects.
\<close>

definition genome_A :: genome where
  "genome_A = \<lparr>genome_id = 1, path = ''A'', genome_length = 5000000, description = ''A''\<rparr>"

definition genome_B :: genome where
  "genome_B = \<lparr>genome_id = 2, path = ''B'', genome_length = 4800000, description = ''B''\<rparr>"

definition genome_C :: genome where
  "genome_C = \<lparr>genome_id = 3, path = ''C'', genome_length = 5200000, description = ''C''\<rparr>"

definition example_args :: args where
  "example_args =
     \<lparr>args_name = None, dbpath = ''.pyani/pyanidb'', cmdline = ''pyani anim in out'',
      indir = ''in'', outdir = ''out'', classes = ''classes.txt'', labels = ''labels.txt'',
      nucmer_exe = ''nucmer'', filter_exe = ''delta-filter'', args_maxmatch = False,
      nofilter = False, recovery = False, scheduler = ''multiprocessing'', workers = None,
      sgegroupsize = 10000, sgeargs = [], jobprefix = ''ANIm''\<rparr>"

definition example_env :: env where
  "example_env =
     \<lparr>get_version = (\<lambda>_. ''3.1''), now_isoformat = ''2018-01-01T00:00:00'',
      get_session_ok = True, add_run_ok = True, add_run_genomes_ok = True,
      added_genomes = [genome_A, genome_B], makedirs_ok = True,
      aligndir = ''nucmer_output'',
      listdir = (\<lambda>_. [''A_vs_B.filter'', ''A_vs_B.delta'', ''notes.txt'']),
      construct_nucmer_cmdline =
        (\<lambda>q sb out nx fx mm.
           (nx @ '' --mum -p '' @ out @ ''/'' @ q @ ''_vs_'' @ sb @ '' '' @ q @ '' '' @ sb,
            fx @ '' -1 '' @ out @ ''/'' @ q @ ''_vs_'' @ sb @ ''.delta'')),
      parse_delta = (\<lambda>_. Inr (4000000, 20000)),
      mp_run_dependency_graph = (\<lambda>_ _. 0),
      sge_run_dependency_graph = (\<lambda>_ _ _ _. ())\<rparr>"

definition comparison_AB :: comparison where
  "comparison_AB =
     \<lparr>query = genome_A, subject = genome_B, aln_length = 4000000, sim_errs = 20000,
      identity = 199 / 200, cov_query = 4 / 5, cov_subject = 5 / 6,
      program = ''nucmer'', version = ''3.1'', fragsize = None, maxmatch = False\<rparr>"

definition example_session :: session where
  "example_session =
     \<lparr>comparison_table = [comparison_AB], pending = [],
      the_run = (new_run example_env example_args)\<lparr>run_genomes := [genome_A, genome_B, genome_C]\<rparr>\<rparr>"

definition job_AC :: comparison_job where
  "job_AC = build_job example_args 0 genome_A genome_C
     ''nucmer --mum -p out/A_vs_C A C'' ''delta-filter -1 out/A_vs_C.delta'' ''out/A_vs_C.filter''"

definition job_BC :: comparison_job where
  "job_BC = build_job example_args 1 genome_B genome_C
     ''nucmer --mum -p out/B_vs_C B C'' ''delta-filter -1 out/B_vs_C.delta'' ''out/B_vs_C.filter''"

definition zero_env :: env where
  "zero_env = example_env\<lparr>parse_delta :=
      (\<lambda>f. if f = ''out/B_vs_C.filter'' then Inr (0, 0) else Inr (4000000, 20000))\<rparr>"

definition recovery_args :: args where
  "recovery_args = example_args\<lparr>recovery := True\<rparr>"

definition job_AC_recovery :: comparison_job where
  "job_AC_recovery = build_job recovery_args 1 genome_A genome_C
     ''nucmer --mum -p out/A_vs_C A C'' ''delta-filter -1 out/A_vs_C.delta'' ''out/A_vs_C.filter''"

definition negative_env :: env where
  "negative_env = example_env\<lparr>mp_run_dependency_graph := (\<lambda>_ _. - 9)\<rparr>"

definition failing_env :: env where
  "failing_env = example_env\<lparr>mp_run_dependency_graph := (\<lambda>_ _. 1)\<rparr>"

definition job_AB :: comparison_job where
  "job_AB = build_job example_args 0 genome_A genome_B
     ''nucmer --mum -p out/A_vs_B A B'' ''delta-filter -1 out/A_vs_B.delta'' ''out/A_vs_B.filter''"

definition matrix_session :: session where
  "matrix_session =
     \<lparr>comparison_table = [comparison_AB], pending = [],
      the_run = (new_run example_env example_args)
        \<lparr>run_genomes := [genome_C, genome_A, genome_B], run_comparisons := [comparison_AB]\<rparr>\<rparr>"

section \<open>Properties\<close>

subsection \<open>The dictionary of existing comparisons\<close>

lemma foldl_upd_dom:
  "dom (foldl (\<lambda>m c. m(key_of c \<mapsto> c)) m cs) = dom m \<union> key_of ` set cs"
  by (induction cs arbitrary: m) auto

lemma foldl_upd_Some:
  "foldl (\<lambda>m c. m(key_of c \<mapsto> c)) m cs k = Some c \<Longrightarrow>
   (c \<in> set cs \<and> key_of c = k) \<or> m k = Some c"
proof (induction cs arbitrary: m)
  case Nil
  then show ?case by simp
next
  case (Cons x xs)
  from Cons.IH [of "m(key_of x \<mapsto> x)"] Cons.prems show ?case
    by (auto split: if_splits)
qed

lemma existing_comparisons_dom: "dom (existing_comparisons cs) = key_of ` set cs"
  by (simp add: existing_comparisons_def foldl_upd_dom)

lemma existing_comparisons_Some:
  "existing_comparisons cs k = Some c \<Longrightarrow> c \<in> set cs \<and> key_of c = k"
  using foldl_upd_Some [of Map.empty cs k c] by (simp add: existing_comparisons_def)

lemma existing_comparisons_None:
  "existing_comparisons cs k = None \<longleftrightarrow> k \<notin> key_of ` set cs"
proof -
  have "existing_comparisons cs k = None \<longleftrightarrow> k \<notin> dom (existing_comparisons cs)"
    by (simp add: domIff)
  then show ?thesis by (simp add: existing_comparisons_dom)
qed

subsection \<open>The deduplication loop\<close>

lemma commit_no_pending: "pending s = [] \<Longrightarrow> commit s = s"
  by (simp add: commit_def)

lemma reduce_comparisons_snd:
  "snd (reduce_comparisons ex nv a ps s todo) =
     todo @ filter (\<lambda>p. ex (lookup_key nv a p) = None) ps"
  by (induction ps arbitrary: s todo) (auto simp: lookup_key_def split: option.splits)

lemma reduce_comparisons_fst:
  "pending s = [] \<Longrightarrow>
   fst (reduce_comparisons ex nv a ps s todo) =
     s\<lparr>the_run := (the_run s)\<lparr>run_comparisons := run_comparisons (the_run s) @
          map (\<lambda>p. the (ex (lookup_key nv a p)))
            (filter (\<lambda>p. ex (lookup_key nv a p) \<noteq> None) ps)\<rparr>\<rparr>"
proof (induction ps arbitrary: s todo)
  case Nil
  then show ?case by simp
next
  case (Cons p ps)
  obtain q sb where p: "p = (q, sb)" by (cases p)
  show ?case
  proof (cases "ex (lookup_key nv a p)")
    case None
    with Cons p show ?thesis by (simp add: lookup_key_def)
  next
    case (Some c)
    have pe: "pending (append_existing c s) = []"
      using Cons.prems by (simp add: append_existing_def)
    have ce: "commit (append_existing c s) = append_existing c s"
      using pe by (rule commit_no_pending)
    have "fst (reduce_comparisons ex nv a (p # ps) s todo) =
          fst (reduce_comparisons ex nv a ps (append_existing c s) todo)"
      using Some p by (simp add: lookup_key_def ce)
    also note Cons.IH [OF pe, of todo]
    finally show ?thesis using Some by (simp add: append_existing_def)
  qed
qed




subsection \<open>The recovery scanner\<close>

text \<open>
  C2. The docstring of \<^verbatim>\<open>collect_existing_output\<close> promises the list of the existing
  output files. On a directory that holds \<^verbatim>\<open>A_vs_B.filter\<close>, \<^verbatim>\<open>A_vs_B.delta\<close> and
  \<^verbatim>\<open>notes.txt\<close>, with filtering enabled, the list the body computes is
  \<^verbatim>\<open>["A_vs_B.filter"]\<close>, and the value of the function is \<^verbatim>\<open>None\<close>.
\<close>

theorem collect_existing_output_returns_None:
  "filter (\<lambda>fname. splitext_ext fname = ''.filter'')
     (listdir example_env ''out/nucmer_output'') = [''A_vs_B.filter'']
   \<and> collect_existing_output example_env ''out/nucmer_output'' example_args = None"
  by (simp add: collect_existing_output_def example_env_def splitext_ext_def path_tail_def)

subsection \<open>The result ingestor\<close>

lemma loop_step_ok:
  assumes "parse_delta e (outfile j) = Inr (aln, errs)" "aln \<noteq> 0"
    "genome_length (job_query j) \<noteq> 0" "genome_length (job_subject j) \<noteq> 0"
  shows "update_comparison_results_loop e nv a (j # js) s =
         update_comparison_results_loop e nv a js (append_new (ingested nv a j aln errs) s)"
  using assms by (simp add: truediv_def ingested_def)

lemma loop_step_zero:
  assumes "parse_delta e (outfile j) = Inr (0, errs)"
  shows "update_comparison_results_loop e nv a (j # js) s = Inl (ZeroDivisionError, s)"
  using assms by (simp add: truediv_def)

lemma loop_prefix:
  assumes "\<forall>j\<in>set pre. parse_delta e (outfile j) = Inr (aln j, errs j) \<and> aln j \<noteq> 0 \<and>
             genome_length (job_query j) \<noteq> 0 \<and> genome_length (job_subject j) \<noteq> 0"
  shows "update_comparison_results_loop e nv a (pre @ rest) s =
         update_comparison_results_loop e nv a rest
           (foldl (\<lambda>s j. append_new (ingested nv a j (aln j) (errs j)) s) s pre)"
  using assms
proof (induction pre arbitrary: s)
  case Nil
  then show ?case by simp
next
  case (Cons j pre)
  then have "update_comparison_results_loop e nv a (j # (pre @ rest)) s =
         update_comparison_results_loop e nv a (pre @ rest)
           (append_new (ingested nv a j (aln j) (errs j)) s)"
    by (intro loop_step_ok) auto
  with Cons show ?case by simp
qed

lemma foldl_append_new:
  "foldl (\<lambda>s j. append_new (f j) s) s js =
     s\<lparr>pending := pending s @ map f js,
       the_run := (the_run s)\<lparr>run_comparisons := run_comparisons (the_run s) @ map f js\<rparr>\<rparr>"
  by (induction js arbitrary: s) (simp_all add: append_new_def)

text \<open>
  C6. When every job of the list has a parsed alignment length other than zero (and
  genomes of a length other than zero), \<^verbatim>\<open>update_comparison_results\<close> returns, and
  it has appended to the run, for each job in order, a Comparison with query coverage =
  alignment length / query genome length, subject coverage = alignment length / subject
  genome length, identity = 1 - similarity errors / alignment length, program "nucmer",
  the nucmer version, no fragment size, the maxmatch flag of the command line, and the
  query and subject genomes of the job. The commit stores these comparisons.
\<close>

theorem ingestion_formulas:
  assumes "\<forall>j\<in>set joblist. parse_delta e (outfile j) = Inr (aln j, errs j) \<and> aln j \<noteq> 0 \<and>
             genome_length (job_query j) \<noteq> 0 \<and> genome_length (job_subject j) \<noteq> 0"
  shows "\<exists>s'. update_comparison_results e joblist s nv a = Inr s'
           \<and> run_comparisons (the_run s') = run_comparisons (the_run s) @
               map (\<lambda>j. \<lparr>query = job_query j, subject = job_subject j,
                         aln_length = aln j, sim_errs = errs j,
                         identity = 1 - real_of_int (errs j) / real_of_int (aln j),
                         cov_query = real_of_int (aln j) / real_of_int (genome_length (job_query j)),
                         cov_subject = real_of_int (aln j) / real_of_int (genome_length (job_subject j)),
                         program = ''nucmer'', version = nv, fragsize = None,
                         maxmatch = args_maxmatch a\<rparr>) joblist
           \<and> comparison_table s' = comparison_table s @ pending s @
               drop (length (run_comparisons (the_run s))) (run_comparisons (the_run s'))"
proof -
  from loop_prefix [OF assms, of nv a "[]" s]
  have "update_comparison_results e joblist s nv a =
        Inr (commit (foldl (\<lambda>s j. append_new (ingested nv a j (aln j) (errs j)) s) s joblist))"
    by (simp add: update_comparison_results_def)
  then show ?thesis
    by (simp add: foldl_append_new commit_def ingested_def)
qed

theorem ingestion_formulas_witness:
  "\<exists>s'. update_comparison_results example_env [job_AC, job_BC] example_session ''3.1''
           example_args = Inr s'
     \<and> map (\<lambda>c. (genome_id (query c), genome_id (subject c), identity c, cov_query c,
                  cov_subject c, program c, version c, fragsize c, maxmatch c))
         (run_comparisons (the_run s')) =
         [(1, 3, 199 / 200, 4 / 5, 10 / 13, ''nucmer'', ''3.1'', None, False),
          (2, 3, 199 / 200, 5 / 6, 10 / 13, ''nucmer'', ''3.1'', None, False)]
     \<and> length (comparison_table s') = 3"
proof -
  have h: "\<forall>j\<in>set [job_AC, job_BC].
             parse_delta example_env (outfile j) = Inr ((\<lambda>_. 4000000) j, (\<lambda>_. 20000) j) \<and>
             (\<lambda>_. 4000000::int) j \<noteq> 0 \<and> genome_length (job_query j) \<noteq> 0 \<and>
             genome_length (job_subject j) \<noteq> 0"
    by (simp add: example_env_def job_AC_def job_BC_def build_job_def genome_A_def
        genome_B_def genome_C_def)
  from ingestion_formulas [OF h, of example_session "''3.1''" example_args]
  obtain s' where s': "update_comparison_results example_env [job_AC, job_BC] example_session
        ''3.1'' example_args = Inr s'"
    and rc: "run_comparisons (the_run s') = run_comparisons (the_run example_session) @
        map (\<lambda>j. \<lparr>query = job_query j, subject = job_subject j,
                         aln_length = 4000000, sim_errs = 20000,
                         identity = 1 - real_of_int 20000 / real_of_int 4000000,
                         cov_query = real_of_int 4000000 / real_of_int (genome_length (job_query j)),
                         cov_subject = real_of_int 4000000 / real_of_int (genome_length (job_subject j)),
                         program = ''nucmer'', version = ''3.1'', fragsize = None,
                         maxmatch = args_maxmatch example_args\<rparr>) [job_AC, job_BC]"
    and ct: "comparison_table s' = comparison_table example_session @ pending example_session @
               drop (length (run_comparisons (the_run example_session))) (run_comparisons (the_run s'))"
    by blast
  have "length (comparison_table s') = 3"
    unfolding ct rc by (simp add: example_session_def new_run_def)
  moreover have "map (\<lambda>c. (genome_id (query c), genome_id (subject c), identity c, cov_query c,
                  cov_subject c, program c, version c, fragsize c, maxmatch c))
         (run_comparisons (the_run s')) =
         [(1, 3, 199 / 200, 4 / 5, 10 / 13, ''nucmer'', ''3.1'', None, False),
          (2, 3, 199 / 200, 5 / 6, 10 / 13, ''nucmer'', ''3.1'', None, False)]"
    unfolding rc
    by (simp add: example_session_def new_run_def job_AC_def job_BC_def build_job_def
        genome_A_def genome_B_def genome_C_def example_args_def)
  ultimately show ?thesis using s' by (intro exI [of _ s']) simp
qed

text \<open>
  C1, as the code has it. A job whose parsed alignment length is zero makes
  \<^verbatim>\<open>update_comparison_results\<close> raise \<^verbatim>\<open>ZeroDivisionError\<close> when the loop reaches
  it (the jobs before it having been ingested): no fallback value is recorded, the
  Comparison table is left as it was, and the run has no Comparison for that job or for
  a later one.
\<close>

theorem zero_alignment_raises:
  assumes "\<forall>j\<in>set pre. parse_delta e (outfile j) = Inr (aln j, errs j) \<and> aln j \<noteq> 0 \<and>
             genome_length (job_query j) \<noteq> 0 \<and> genome_length (job_subject j) \<noteq> 0"
      and "parse_delta e (outfile j0) = Inr (0, errs0)"
  shows "\<exists>s'. update_comparison_results e (pre @ j0 # post) s nv a = Inl (ZeroDivisionError, s')
           \<and> comparison_table s' = comparison_table s
           \<and> map (\<lambda>c. (query c, subject c)) (run_comparisons (the_run s')) =
               map (\<lambda>c. (query c, subject c)) (run_comparisons (the_run s)) @
               map (\<lambda>j. (job_query j, job_subject j)) pre"
proof -
  from loop_prefix [OF assms(1), of nv a "j0 # post" s] loop_step_zero [OF assms(2)]
  have "update_comparison_results e (pre @ j0 # post) s nv a =
        Inl (ZeroDivisionError, foldl (\<lambda>s j. append_new (ingested nv a j (aln j) (errs j)) s) s pre)"
    by (simp add: update_comparison_results_def)
  then show ?thesis
    by (simp add: foldl_append_new ingested_def comp_def)
qed

theorem zero_alignment_raises_witness:
  "\<exists>s'. update_comparison_results zero_env ([job_AC] @ job_BC # []) example_session ''3.1''
           example_args = Inl (ZeroDivisionError, s')
     \<and> comparison_table s' = [comparison_AB]
     \<and> map (\<lambda>c. (query c, subject c)) (run_comparisons (the_run s')) = [(genome_A, genome_C)]"
proof -
  have h: "\<forall>j\<in>set [job_AC].
             parse_delta zero_env (outfile j) = Inr ((\<lambda>_. 4000000) j, (\<lambda>_. 20000) j) \<and>
             (\<lambda>_. 4000000::int) j \<noteq> 0 \<and> genome_length (job_query j) \<noteq> 0 \<and>
             genome_length (job_subject j) \<noteq> 0"
    by (simp add: zero_env_def example_env_def job_AC_def build_job_def genome_A_def genome_C_def)
  have z: "parse_delta zero_env (outfile job_BC) = Inr (0, 0)"
    by (simp add: zero_env_def job_BC_def build_job_def)
  from zero_alignment_raises [OF h z, of "[]" example_session "''3.1''" example_args]
  show ?thesis
    by (simp add: example_session_def new_run_def job_AC_def build_job_def)
qed

text \<open>
  C1, as stated, fails: with a second job whose output file parses to an alignment length
  of zero, the call raises \<^verbatim>\<open>ZeroDivisionError\<close> after the first job, and the commit
  is not reached.
\<close>

theorem zero_alignment_counterexample:
  "update_comparison_results zero_env [job_AC, job_BC] example_session ''3.1'' example_args =
     Inl (ZeroDivisionError, append_new
       \<lparr>query = genome_A, subject = genome_C, aln_length = 4000000, sim_errs = 20000,
        identity = 199 / 200, cov_query = 4 / 5, cov_subject = 10 / 13,
        program = ''nucmer'', version = ''3.1'', fragsize = None, maxmatch = False\<rparr> example_session)"
  by (simp add: update_comparison_results_def zero_env_def example_env_def job_AC_def job_BC_def
      build_job_def truediv_def genome_A_def genome_B_def genome_C_def example_args_def)

subsection \<open>The job builder and recovery\<close>

lemma job_pair_build_job [simp]: "job_pair (build_job a idx q sb ncmd dcmd outfname) = (q, sb)"
  by (simp add: job_pair_def build_job_def)

lemma generate_joblist_loop_pairs:
  "generate_joblist_loop e ex a idx ps acc = Inr jl \<Longrightarrow>
   map job_pair jl = map job_pair acc @ filter (\<lambda>p. \<not> recovered_pair e ex a p) ps"
proof (induction ps arbitrary: idx acc)
  case Nil
  then show ?case by simp
next
  case (Cons p ps)
  obtain q sb where p: "p = (q, sb)" by (cases p)
  obtain ncmd dcmd where c: "construct_nucmer_cmdline e (path q) (path sb) (outdir a)
        (nucmer_exe a) (filter_exe a) (args_maxmatch a) = (ncmd, dcmd)" by force
  from Cons.prems p c obtain outprefix where o: "getitem (str_split ncmd) 3 = Inr outprefix"
    by (cases "getitem (str_split ncmd) 3") auto
  have op: "outprefix_of e a p = Inr outprefix"
    by (simp add: outprefix_of_def p c o)
  show ?case
  proof (cases "recovery a")
    case False
    then have nr: "\<not> recovered_pair e ex a p" by (simp add: recovered_pair_def)
    from Cons.prems p c o False
    have "generate_joblist_loop e ex a (Suc idx) ps
            (acc @ [build_job a idx q sb ncmd dcmd (expected_outfname a outprefix)]) = Inr jl"
      by simp
    from Cons.IH [OF this] nr p show ?thesis by simp
  next
    case True
    with Cons.prems p c o obtain files where f: "ex = Some files"
      by (cases ex) (auto simp: py_in_def)
    show ?thesis
    proof (cases "path_tail (expected_outfname a outprefix) \<in> set files")
      case True
      then have r: "recovered_pair e ex a p"
        using \<open>recovery a\<close> by (simp add: recovered_pair_def op f)
      from Cons.prems p c o \<open>recovery a\<close> f True
      have "generate_joblist_loop e ex a (Suc idx) ps acc = Inr jl"
        by (simp add: py_in_def)
      from Cons.IH [OF this] r show ?thesis by simp
    next
      case False
      then have nr: "\<not> recovered_pair e ex a p"
        by (simp add: recovered_pair_def op f)
      from Cons.prems p c o \<open>recovery a\<close> f False
      have "generate_joblist_loop e ex a (Suc idx) ps
            (acc @ [build_job a idx q sb ncmd dcmd (expected_outfname a outprefix)]) = Inr jl"
        by (simp add: py_in_def)
      from Cons.IH [OF this] nr p show ?thesis by simp
    qed
  qed
qed

lemma generate_joblist_pairs:
  "generate_joblist e ps ex a = Inr jl \<Longrightarrow>
   map job_pair jl = filter (\<lambda>p. \<not> recovered_pair e ex a p) ps"
  using generate_joblist_loop_pairs [of e ex a 0 ps "[]" jl] by (simp add: generate_joblist_def)

lemma loop_step_cases:
  "(\<exists>err. update_comparison_results_loop e nv a (j # jl) s = Inl (err, s)) \<or>
   (\<exists>aln errs. update_comparison_results_loop e nv a (j # jl) s =
        update_comparison_results_loop e nv a jl (append_new (ingested nv a j aln errs) s))"
proof (cases "parse_delta e (outfile j)")
  case (Inl err)
  then show ?thesis by simp
next
  case (Inr p)
  obtain aln errs where p: "p = (aln, errs)" by (cases p)
  show ?thesis
  proof (cases "aln \<noteq> 0 \<and> genome_length (job_query j) \<noteq> 0 \<and> genome_length (job_subject j) \<noteq> 0")
    case True
    with Inr p loop_step_ok [of e j aln errs nv a jl s] show ?thesis by blast
  next
    case False
    with Inr p show ?thesis by (auto simp: truediv_def)
  qed
qed

lemma loop_new_pairs:
  "\<exists>cs. run_comparisons (the_run (final_session (update_comparison_results_loop e nv a jl s))) =
          run_comparisons (the_run s) @ cs \<and>
        (\<forall>c\<in>set cs. (query c, subject c) \<in> job_pair ` set jl)"
proof (induction jl arbitrary: s)
  case Nil
  then show ?case by (simp add: final_session_def)
next
  case (Cons j jl)
  from loop_step_cases [of e nv a j jl s] show ?case
  proof
    assume "\<exists>err. update_comparison_results_loop e nv a (j # jl) s = Inl (err, s)"
    then show ?thesis by (auto simp: final_session_def)
  next
    assume "\<exists>aln errs. update_comparison_results_loop e nv a (j # jl) s =
        update_comparison_results_loop e nv a jl (append_new (ingested nv a j aln errs) s)"
    then obtain aln errs where u: "update_comparison_results_loop e nv a (j # jl) s =
        update_comparison_results_loop e nv a jl (append_new (ingested nv a j aln errs) s)"
      by blast
    let ?c = "ingested nv a j aln errs"
    have c: "(query ?c, subject ?c) = job_pair j" by (simp add: ingested_def job_pair_def)
    from Cons.IH [of "append_new ?c s"] obtain cs where
      r: "run_comparisons (the_run (final_session
             (update_comparison_results_loop e nv a jl (append_new ?c s)))) =
          run_comparisons (the_run (append_new ?c s)) @ cs"
      and m: "\<forall>c\<in>set cs. (query c, subject c) \<in> job_pair ` set jl" by blast
    have "run_comparisons (the_run (final_session (update_comparison_results_loop e nv a (j # jl) s)))
          = run_comparisons (the_run s) @ (?c # cs)"
      unfolding u r by (simp add: append_new_def)
    moreover have "\<forall>c\<in>set (?c # cs). (query c, subject c) \<in> job_pair ` set (j # jl)"
      using m c by auto
    ultimately show ?thesis by blast
  qed
qed

lemma results_new_pairs:
  "\<exists>cs. run_comparisons (the_run (final_session (update_comparison_results e jl s nv a))) =
          run_comparisons (the_run s) @ cs \<and>
        (\<forall>c\<in>set cs. (query c, subject c) \<in> job_pair ` set jl)"
proof -
  have "the_run (final_session (update_comparison_results e jl s nv a)) =
        the_run (final_session (update_comparison_results_loop e nv a jl s))"
    by (auto simp: update_comparison_results_def final_session_def commit_def split: sum.splits)
  with loop_new_pairs [of e nv a jl s] show ?thesis by simp
qed

text \<open>
  C7. When \<^verbatim>\<open>generate_joblist\<close> returns, the recovery flag is set and the basename of
  the expected output file of a pair of the work set is among the existing files, the job
  list has no ComparisonJob for that pair (the dependency-graph nodes exist only inside
  the jobs of the list); and whatever \<^verbatim>\<open>update_comparison_results\<close> then does with
  that job list, returning or raising, the comparisons it adds to the run include none for
  that pair.
\<close>

theorem recovered_pair_not_ingested:
  assumes "generate_joblist e comparisons (Some files) a = Inr joblist"
      and "(q, sb) \<in> set comparisons"
      and "recovery a"
      and "construct_nucmer_cmdline e (path q) (path sb) (outdir a) (nucmer_exe a)
             (filter_exe a) (args_maxmatch a) = (ncmd, dcmd)"
      and "getitem (str_split ncmd) 3 = Inr outprefix"
      and "path_tail (outprefix @ (if nofilter a then ''.delta'' else ''.filter'')) \<in> set files"
  shows "(\<forall>j\<in>set joblist. \<not> (job_query j = q \<and> job_subject j = sb))
       \<and> (\<forall>s nv. \<exists>cs.
            run_comparisons (the_run (final_session (update_comparison_results e joblist s nv a)))
              = run_comparisons (the_run s) @ cs
            \<and> (\<forall>c\<in>set cs. \<not> (query c = q \<and> subject c = sb)))"
proof -
  have r: "recovered_pair e (Some files) a (q, sb)"
    using assms(3-6) by (auto simp: recovered_pair_def outprefix_of_def expected_outfname_def)
  have "(q, sb) \<notin> set (map job_pair joblist)"
    unfolding generate_joblist_pairs [OF assms(1)] using r by simp
  then have n: "(q, sb) \<notin> job_pair ` set joblist" by simp
  then have 1: "\<forall>j\<in>set joblist. \<not> (job_query j = q \<and> job_subject j = sb)"
    by (auto simp: job_pair_def image_iff)
  have 2: "\<exists>cs. run_comparisons (the_run (final_session (update_comparison_results e joblist s nv a)))
              = run_comparisons (the_run s) @ cs
            \<and> (\<forall>c\<in>set cs. \<not> (query c = q \<and> subject c = sb))" for s nv
  proof -
    from results_new_pairs [of e joblist s nv a] obtain cs where
      "run_comparisons (the_run (final_session (update_comparison_results e joblist s nv a)))
              = run_comparisons (the_run s) @ cs"
      "\<forall>c\<in>set cs. (query c, subject c) \<in> job_pair ` set joblist" by blast
    with n show ?thesis by (intro exI [of _ cs]) auto
  qed
  from 1 2 show ?thesis by blast
qed

lemma example_outprefix:
  "getitem (str_split ''nucmer --mum -p out/A_vs_B A B'') 3 = Inr ''out/A_vs_B''"
  by (simp add: getitem_def str_split_def isspace_def)

lemma example_recovery_joblist:
  "generate_joblist example_env [(genome_A, genome_B), (genome_A, genome_C)]
     (Some [''A_vs_B.filter'']) recovery_args = Inr [job_AC_recovery]"
  by (simp add: generate_joblist_def example_env_def recovery_args_def example_args_def
      genome_A_def genome_B_def genome_C_def getitem_def str_split_def isspace_def
      expected_outfname_def py_in_def path_tail_def job_AC_recovery_def)

theorem recovered_pair_not_ingested_witness:
  "generate_joblist example_env [(genome_A, genome_B), (genome_A, genome_C)]
     (Some [''A_vs_B.filter'']) recovery_args = Inr [job_AC_recovery]
   \<and> \<not> (job_query job_AC_recovery = genome_A \<and> job_subject job_AC_recovery = genome_B)
   \<and> (\<exists>cs. run_comparisons (the_run (final_session
              (update_comparison_results example_env [job_AC_recovery] example_session ''3.1''
                 recovery_args)))
            = run_comparisons (the_run example_session) @ cs
          \<and> list_all (\<lambda>c. \<not> (query c = genome_A \<and> subject c = genome_B)) cs)"
proof -
  have m: "(genome_A, genome_B) \<in> set [(genome_A, genome_B), (genome_A, genome_C)]" by simp
  have r: "recovery recovery_args" by (simp add: recovery_args_def)
  have c: "construct_nucmer_cmdline example_env (path genome_A) (path genome_B)
             (outdir recovery_args) (nucmer_exe recovery_args) (filter_exe recovery_args)
             (args_maxmatch recovery_args)
           = (''nucmer --mum -p out/A_vs_B A B'', ''delta-filter -1 out/A_vs_B.delta'')"
    by (simp add: example_env_def recovery_args_def example_args_def genome_A_def genome_B_def)
  have p: "path_tail (''out/A_vs_B'' @ (if nofilter recovery_args then ''.delta'' else ''.filter''))
             \<in> set [''A_vs_B.filter'']"
    by (simp add: recovery_args_def example_args_def path_tail_def)
  from recovered_pair_not_ingested [OF example_recovery_joblist m r c example_outprefix p]
  show ?thesis
    by (simp add: example_recovery_joblist list_all_iff)
qed

subsection \<open>The orchestrator\<close>

lemma reduce_in_subcmd:
  "reduce_comparisons (existing_comparisons db) (get_version e (nucmer_exe a)) a
     (combinations2 (added_genomes e)) (start_session e a db) [] =
   (dedup_session e a db, work_set e a db)"
proof -
  let ?nv = "get_version e (nucmer_exe a)"
  let ?r = "reduce_comparisons (existing_comparisons db) ?nv a
     (combinations2 (added_genomes e)) (start_session e a db) []"
  have p: "pending (start_session e a db) = []"
    by (simp add: start_session_def with_genomes_def)
  have rc: "run_comparisons (the_run (start_session e a db)) = []"
    by (simp add: start_session_def with_genomes_def new_run_def)
  have f1: "(\<lambda>p. existing_comparisons db (lookup_key ?nv a p) = None) =
            (\<lambda>p. lookup_key ?nv a p \<notin> key_of ` set db)"
    by (simp add: existing_comparisons_None)
  have f2: "(\<lambda>p. existing_comparisons db (lookup_key ?nv a p) \<noteq> None) =
            (\<lambda>p. lookup_key ?nv a p \<in> key_of ` set db)"
    by (simp add: existing_comparisons_None)
  have "snd ?r = work_set e a db"
    by (simp add: reduce_comparisons_snd work_set_def f1)
  moreover have "fst ?r = dedup_session e a db"
    unfolding reduce_comparisons_fst [OF p] f2 rc
    by (simp add: dedup_session_def reused_def)
  ultimately show ?thesis by (metis prod.collapse)
qed

lemma subcmd_anim_unfold:
  assumes "setup_ok e"
  shows "subcmd_anim e a db =
    (if work_set e a db = [] then Inr (update_comparison_matrices (dedup_session e a db) a)
     else
       (case (if recovery a
              then call_collect_existing_output e
                     [PStr (path_join (outdir a) (aligndir e)), PArgs a]
              else Inr None) of
          Inl err \<Rightarrow> Inl (err, dedup_session e a db)
        | Inr existingfiles \<Rightarrow>
            (case generate_joblist e (work_set e a db) existingfiles a of
               Inl err \<Rightarrow> Inl (err, dedup_session e a db)
             | Inr joblist \<Rightarrow>
                 (case run_anim_jobs e joblist a of
                    Inl err \<Rightarrow> Inl (err, dedup_session e a db)
                  | Inr _ \<Rightarrow>
                      (case update_comparison_results e joblist (dedup_session e a db)
                              (get_version e (nucmer_exe a)) a of
                         Inl x \<Rightarrow> Inl x
                       | Inr s3 \<Rightarrow> Inr (update_comparison_matrices s3 a))))))"
proof -
  have g: "run_genomes (the_run (start_session e a db)) = added_genomes e"
    by (simp add: start_session_def with_genomes_def)
  have t: "comparison_table (start_session e a db) = db"
    by (simp add: start_session_def with_genomes_def)
  show ?thesis
    using assms
    unfolding subcmd_anim_def Let_def setup_ok_def
    by (simp add: start_session_def [symmetric] g t reduce_in_subcmd)
qed

lemma dedup_session_fields:
  "comparison_table (dedup_session e a db) = db"
  "pending (dedup_session e a db) = []"
  "run_comparisons (the_run (dedup_session e a db)) = reused e a db"
  "run_genomes (the_run (dedup_session e a db)) = added_genomes e"
  "df_identity (the_run (dedup_session e a db)) = None"
  "df_coverage (the_run (dedup_session e a db)) = None"
  "df_alnlength (the_run (dedup_session e a db)) = None"
  "df_simerrors (the_run (dedup_session e a db)) = None"
  "df_hadamard (the_run (dedup_session e a db)) = None"
  by (simp_all add: dedup_session_def start_session_def with_genomes_def new_run_def)

lemma reused_subset: "set (reused e a db) \<subseteq> set db"
proof
  fix c assume "c \<in> set (reused e a db)"
  then obtain p where "lookup_key (get_version e (nucmer_exe a)) a p \<in> key_of ` set db"
    and c: "c = the (existing_comparisons db (lookup_key (get_version e (nucmer_exe a)) a p))"
    by (auto simp: reused_def)
  then have "existing_comparisons db (lookup_key (get_version e (nucmer_exe a)) a p) \<noteq> None"
    by (simp add: existing_comparisons_None)
  then obtain c' where c': "existing_comparisons db (lookup_key (get_version e (nucmer_exe a)) a p) = Some c'"
    by auto
  with existing_comparisons_Some [OF c'] c show "c \<in> set db" by simp
qed

lemma matrices_fields:
  "comparison_table (update_comparison_matrices s a) = comparison_table s @ pending s"
  "pending (update_comparison_matrices s a) = []"
  "run_comparisons (the_run (update_comparison_matrices s a)) = run_comparisons (the_run s)"
  "run_genomes (the_run (update_comparison_matrices s a)) = run_genomes (the_run s)"
  "df_identity (the_run (update_comparison_matrices s a))
     = Some (fr_identity (final_frames (the_run s)))"
  "df_coverage (the_run (update_comparison_matrices s a))
     = Some (fr_coverage (final_frames (the_run s)))"
  "df_alnlength (the_run (update_comparison_matrices s a))
     = Some (fr_alnlength (final_frames (the_run s)))"
  "df_simerrors (the_run (update_comparison_matrices s a))
     = Some (fr_simerrors (final_frames (the_run s)))"
  "df_hadamard (the_run (update_comparison_matrices s a))
     = Some (fr_hadamard (final_frames (the_run s)))"
  by (simp_all add: update_comparison_matrices_def commit_def Let_def final_frames_def)

lemma two_argument_call:
  "call_collect_existing_output e [PStr d, PArgs a] = Inl TypeError"
  by simp

lemma example_work_set: "work_set example_env a [] = [(genome_A, genome_B)]"
  by (simp add: work_set_def example_env_def)

lemma example_work_set_known: "work_set example_env example_args [comparison_AB] = []"
  by (simp add: work_set_def example_env_def lookup_key_def key_of_def query_id_def
      subject_id_def comparison_AB_def example_args_def)

lemma example_setup_ok: "setup_ok example_env"
  by (simp add: setup_ok_def example_env_def)

lemma example_joblist:
  "generate_joblist example_env [(genome_A, genome_B)] None example_args = Inr [job_AB]"
  by (simp add: generate_joblist_def example_env_def example_args_def
      genome_A_def genome_B_def getitem_def str_split_def isspace_def
      expected_outfname_def job_AB_def)

text \<open>
  C10. Line 234 calls \<^verbatim>\<open>collect_existing_output(deltadir, args)\<close> with two arguments
  where the signature requires three, which is a \<^verbatim>\<open>TypeError\<close>. So whenever the
  steps before the deduplication succeed, the recovery flag is set and the work set is
  not empty, \<^verbatim>\<open>subcmd_anim\<close> raises \<^verbatim>\<open>TypeError\<close>; the Comparison table and the
  matrices of the run are untouched, and the outcome does not depend on the command
  builder, the parser or the two executors: no job is built or dispatched.
\<close>

theorem recovery_mode_raises_TypeError:
  assumes "setup_ok e" and "recovery a" and "work_set e a db \<noteq> []"
  shows "call_collect_existing_output e [PStr (path_join (outdir a) (aligndir e)), PArgs a]
           = Inl TypeError
       \<and> (\<exists>s. subcmd_anim e a db = Inl (TypeError, s)
              \<and> comparison_table s = db \<and> pending s = []
              \<and> df_identity (the_run s) = None \<and> df_coverage (the_run s) = None
              \<and> df_alnlength (the_run s) = None \<and> df_simerrors (the_run s) = None
              \<and> df_hadamard (the_run s) = None)
       \<and> (\<forall>f pd mp sge.
             subcmd_anim (e\<lparr>construct_nucmer_cmdline := f, parse_delta := pd,
                            mp_run_dependency_graph := mp, sge_run_dependency_graph := sge\<rparr>) a db
             = subcmd_anim e a db)"
proof -
  have r: "subcmd_anim e a db = Inl (TypeError, dedup_session e a db)"
    using assms by (simp add: subcmd_anim_unfold)
  have i: "subcmd_anim (e\<lparr>construct_nucmer_cmdline := f, parse_delta := pd,
                            mp_run_dependency_graph := mp, sge_run_dependency_graph := sge\<rparr>) a db
             = subcmd_anim e a db" for f pd mp sge
  proof -
    let ?e = "e\<lparr>construct_nucmer_cmdline := f, parse_delta := pd,
                 mp_run_dependency_graph := mp, sge_run_dependency_graph := sge\<rparr>"
    have ok: "setup_ok ?e" using assms(1) by (simp add: setup_ok_def)
    have w: "work_set ?e a db = work_set e a db" by (simp add: work_set_def)
    have n: "new_run ?e a = new_run e a"
      by (cases "args_name a") (simp_all add: new_run_def)
    have d: "dedup_session ?e a db = dedup_session e a db"
      by (simp add: dedup_session_def start_session_def reused_def n)
    have "subcmd_anim ?e a db = Inl (TypeError, dedup_session ?e a db)"
      using ok assms(2,3) w by (simp add: subcmd_anim_unfold)
    with r d show ?thesis by simp
  qed
  from r i show ?thesis by (simp add: dedup_session_fields)
qed

theorem recovery_mode_raises_TypeError_witness:
  "subcmd_anim example_env recovery_args [] =
     Inl (TypeError, dedup_session example_env recovery_args [])"
proof -
  have r: "recovery recovery_args" by (simp add: recovery_args_def)
  have w: "work_set example_env recovery_args [] \<noteq> []" by (simp add: example_work_set)
  from recovery_mode_raises_TypeError [OF example_setup_ok r w] show ?thesis
    using example_setup_ok r w by (simp add: subcmd_anim_unfold)
qed

text \<open>
  C9, as the code has it. When the steps before the deduplication succeed and the work
  set is empty, \<^verbatim>\<open>subcmd_anim\<close> returns normally, and what it returns is the result of
  \<^verbatim>\<open>update_comparison_matrices\<close> on the session whose run has the genomes of the run
  and, as its comparisons, the stored Comparison of every candidate pair, in order: each
  of the five matrices is the frame that the loop of lines 436-447 builds from these
  reused records. The Comparison table is unchanged: no new Comparison is stored.
\<close>

theorem empty_work_set_returns:
  assumes "setup_ok e" and "work_set e a db = []"
  shows "\<exists>s0.
      subcmd_anim e a db = Inr (update_comparison_matrices s0 a)
    \<and> comparison_table s0 = db \<and> pending s0 = []
    \<and> run_genomes (the_run s0) = added_genomes e
    \<and> run_comparisons (the_run s0) =
        map (\<lambda>p. the (existing_comparisons db
               (genome_id (fst p), genome_id (snd p), ''nucmer'', get_version e (nucmer_exe a),
                None, args_maxmatch a)))
          (combinations2 (added_genomes e))
    \<and> set (run_comparisons (the_run s0)) \<subseteq> set db
    \<and> comparison_table (update_comparison_matrices s0 a) = db
    \<and> run_comparisons (the_run (update_comparison_matrices s0 a)) = run_comparisons (the_run s0)
    \<and> df_identity (the_run (update_comparison_matrices s0 a)) =
        Some (fr_identity (foldl add_comparison (initial_frames (the_run s0))
                (run_comparisons (the_run s0))))
    \<and> df_coverage (the_run (update_comparison_matrices s0 a)) =
        Some (fr_coverage (foldl add_comparison (initial_frames (the_run s0))
                (run_comparisons (the_run s0))))
    \<and> df_alnlength (the_run (update_comparison_matrices s0 a)) =
        Some (fr_alnlength (foldl add_comparison (initial_frames (the_run s0))
                (run_comparisons (the_run s0))))
    \<and> df_simerrors (the_run (update_comparison_matrices s0 a)) =
        Some (fr_simerrors (foldl add_comparison (initial_frames (the_run s0))
                (run_comparisons (the_run s0))))
    \<and> df_hadamard (the_run (update_comparison_matrices s0 a)) =
        Some (fr_hadamard (foldl add_comparison (initial_frames (the_run s0))
                (run_comparisons (the_run s0))))"
proof -
  let ?nv = "get_version e (nucmer_exe a)"
  let ?s0 = "dedup_session e a db"
  have r: "subcmd_anim e a db = Inr (update_comparison_matrices ?s0 a)"
    using assms by (simp add: subcmd_anim_unfold)
  have all: "filter (\<lambda>p. lookup_key ?nv a p \<in> key_of ` set db) (combinations2 (added_genomes e))
               = combinations2 (added_genomes e)"
    using assms(2) by (simp add: work_set_def filter_empty_conv)
  have rc: "run_comparisons (the_run ?s0) =
        map (\<lambda>p. the (existing_comparisons db
               (genome_id (fst p), genome_id (snd p), ''nucmer'', ?nv, None, args_maxmatch a)))
          (combinations2 (added_genomes e))"
    unfolding dedup_session_fields(3) reused_def all by (simp add: lookup_key_def)
  have sub: "set (run_comparisons (the_run ?s0)) \<subseteq> set db"
    using reused_subset [of e a db] by (simp add: dedup_session_fields)
  show ?thesis
    apply (rule exI [of _ ?s0])
    apply (intro conjI)
               apply (rule r)
              apply (simp add: dedup_session_fields)
             apply (simp add: dedup_session_fields)
            apply (simp add: dedup_session_fields)
           apply (rule rc)
          apply (rule sub)
         apply (simp add: matrices_fields dedup_session_fields)
        apply (simp add: matrices_fields)
       apply (simp add: matrices_fields final_frames_def)
      apply (simp add: matrices_fields final_frames_def)
     apply (simp add: matrices_fields final_frames_def)
    apply (simp add: matrices_fields final_frames_def)
    apply (simp add: matrices_fields final_frames_def)
    done
qed

theorem empty_work_set_returns_witness:
  "\<exists>s0. subcmd_anim example_env example_args [comparison_AB] =
           Inr (update_comparison_matrices s0 example_args)
      \<and> comparison_table s0 = [comparison_AB]
      \<and> run_genomes (the_run s0) = [genome_A, genome_B]
      \<and> run_comparisons (the_run s0) = [comparison_AB]
      \<and> comparison_table (update_comparison_matrices s0 example_args) = [comparison_AB]
      \<and> df_identity (the_run (update_comparison_matrices s0 example_args)) =
          Some (fr_identity (add_comparison (initial_frames (the_run s0)) comparison_AB))
      \<and> df_values (fr_identity (add_comparison (initial_frames (the_run s0)) comparison_AB))
            (1, 2) = Some (199 / 200)
      \<and> df_values (fr_coverage (add_comparison (initial_frames (the_run s0)) comparison_AB))
            (2, 1) = Some (5 / 6)"
proof -
  have k: "key_of comparison_AB = (1, 2, ''nucmer'', ''3.1'', None, False)"
    by (simp add: key_of_def query_id_def subject_id_def comparison_AB_def genome_A_def
        genome_B_def)
  have e: "existing_comparisons [comparison_AB] (1, 2, ''nucmer'', ''3.1'', None, False)
             = Some comparison_AB"
    by (simp add: existing_comparisons_def k)
  have g: "added_genomes example_env = [genome_A, genome_B]"
    and v: "get_version example_env (nucmer_exe example_args) = ''3.1''"
    and mm: "args_maxmatch example_args = False"
    by (simp_all add: example_env_def example_args_def)
  have ids: "genome_id genome_A = 1" "genome_id genome_B = 2"
    by (simp_all add: genome_A_def genome_B_def)
  have q: "query_id comparison_AB = 1" and sb: "subject_id comparison_AB = 2"
    by (simp_all add: query_id_def subject_id_def comparison_AB_def ids)
  have fields: "identity comparison_AB = 199 / 200" "cov_subject comparison_AB = 5 / 6"
    by (simp_all add: comparison_AB_def)
  have cells: "df_values (fr_identity (add_comparison fr comparison_AB)) (1, 2) = Some (199 / 200)"
    "df_values (fr_coverage (add_comparison fr comparison_AB)) (2, 1) = Some (5 / 6)" for fr
    by (simp_all add: add_comparison_def Let_def loc_set_def q sb fields)
  from empty_work_set_returns [OF example_setup_ok example_work_set_known]
  obtain s0 where
    "subcmd_anim example_env example_args [comparison_AB] =
       Inr (update_comparison_matrices s0 example_args)"
    "comparison_table s0 = [comparison_AB]"
    "run_genomes (the_run s0) = [genome_A, genome_B]"
    "run_comparisons (the_run s0) = [comparison_AB]"
    "comparison_table (update_comparison_matrices s0 example_args) = [comparison_AB]"
    "df_identity (the_run (update_comparison_matrices s0 example_args)) =
        Some (fr_identity (foldl add_comparison (initial_frames (the_run s0))
                (run_comparisons (the_run s0))))"
    by (auto simp: g v mm ids e)
  then show ?thesis
    by (intro exI [of _ s0]) (simp add: cells)
qed

text \<open>
  C9, as stated, fails: with genomes A and B and the comparison of (A, B) already stored,
  the work set is empty and the call returns; it does not raise.
\<close>

theorem empty_work_set_counterexample:
  "work_set example_env example_args [comparison_AB] = []
   \<and> \<not> isl (subcmd_anim example_env example_args [comparison_AB])"
  by (simp add: example_work_set_known subcmd_anim_unfold example_setup_ok)

text \<open>
  The dispatch. With the multiprocessing scheduler, when the executor returns a value
  greater than zero for the jobs of the work set, \<^verbatim>\<open>run_anim_jobs\<close> raises
  \<^verbatim>\<open>PyaniException\<close> and so does \<^verbatim>\<open>subcmd_anim\<close>: the Comparison table is
  unchanged, nothing is pending, the run holds reused records only, its five matrices are
  unset, and the outcome does not depend on the parser (the ingestor is not run).
\<close>

lemma positive_value_aborts:
  assumes "setup_ok e" and "work_set e a db \<noteq> []" and "\<not> recovery a"
      and "generate_joblist e (work_set e a db) None a = Inr joblist"
      and "scheduler a = ''multiprocessing''"
      and "0 < mp_run_dependency_graph e (map job_node joblist) (workers a)"
  shows "run_anim_jobs e joblist a = Inl (PyaniException ''Multiprocessing run failed in ANIm'')
       \<and> (\<exists>s. subcmd_anim e a db = Inl (PyaniException ''Multiprocessing run failed in ANIm'', s)
              \<and> comparison_table s = db \<and> pending s = []
              \<and> set (run_comparisons (the_run s)) \<subseteq> set db
              \<and> df_identity (the_run s) = None \<and> df_coverage (the_run s) = None
              \<and> df_alnlength (the_run s) = None \<and> df_simerrors (the_run s) = None
              \<and> df_hadamard (the_run s) = None)
       \<and> (\<forall>pd. subcmd_anim (e\<lparr>parse_delta := pd\<rparr>) a db = subcmd_anim e a db)"
proof -
  let ?x = "PyaniException ''Multiprocessing run failed in ANIm''"
  have j: "run_anim_jobs e joblist a = Inl ?x"
    using assms(5,6) by (simp add: run_anim_jobs_def)
  have r: "subcmd_anim e a db = Inl (?x, dedup_session e a db)"
    using assms(1-4) j by (simp add: subcmd_anim_unfold)
  have i: "subcmd_anim (e\<lparr>parse_delta := pd\<rparr>) a db = subcmd_anim e a db" for pd
  proof -
    let ?e = "e\<lparr>parse_delta := pd\<rparr>"
    have ok: "setup_ok ?e" using assms(1) by (simp add: setup_ok_def)
    have w: "work_set ?e a db = work_set e a db" by (simp add: work_set_def)
    have n: "new_run ?e a = new_run e a"
      by (cases "args_name a") (simp_all add: new_run_def)
    have d: "dedup_session ?e a db = dedup_session e a db"
      by (simp add: dedup_session_def start_session_def reused_def n)
    have gl: "generate_joblist_loop ?e ex a idx ps acc = generate_joblist_loop e ex a idx ps acc"
      for ex idx ps acc
      by (induction ps arbitrary: idx acc) (auto simp: Let_def split: sum.splits prod.splits bool.splits)
    have g: "generate_joblist ?e (work_set e a db) None a = Inr joblist"
      using assms(4) by (simp add: generate_joblist_def gl)
    have j': "run_anim_jobs ?e joblist a = Inl ?x"
      using assms(5,6) by (simp add: run_anim_jobs_def)
    have "subcmd_anim ?e a db = Inl (?x, dedup_session ?e a db)"
      using ok assms(2,3) w g j' by (simp add: subcmd_anim_unfold)
    with r d show ?thesis by simp
  qed
  from j r i reused_subset [of e a db] show ?thesis by (simp add: dedup_session_fields)
qed

lemma positive_value_aborts_example:
  "subcmd_anim failing_env example_args [] =
     Inl (PyaniException ''Multiprocessing run failed in ANIm'',
          dedup_session failing_env example_args [])"
proof -
  have ok: "setup_ok failing_env" by (simp add: setup_ok_def failing_env_def example_env_def)
  have w: "work_set failing_env example_args [] = [(genome_A, genome_B)]"
    by (simp add: work_set_def failing_env_def example_env_def)
  then have w': "work_set failing_env example_args [] \<noteq> []" by simp
  have nr: "\<not> recovery example_args" by (simp add: example_args_def)
  have g: "generate_joblist failing_env (work_set failing_env example_args []) None example_args
             = Inr [job_AB]"
    unfolding w
    by (simp add: generate_joblist_def failing_env_def example_env_def example_args_def
      genome_A_def genome_B_def getitem_def str_split_def isspace_def
      expected_outfname_def job_AB_def)
  have s: "scheduler example_args = ''multiprocessing''" by (simp add: example_args_def)
  have f: "0 < mp_run_dependency_graph failing_env (map job_node [job_AB]) (workers example_args)"
    by (simp add: failing_env_def)
  from positive_value_aborts [OF ok w' nr g s f] show ?thesis
    using ok w' nr g by (simp add: subcmd_anim_unfold)
qed

text \<open>
  A value that is zero or negative passes the test \<^verbatim>\<open>0 < cumval\<close> of line 343:
  \<^verbatim>\<open>run_anim_jobs\<close> returns, and \<^verbatim>\<open>subcmd_anim\<close> goes on to the ingestor and the
  matrices, as after a run without failure.
\<close>

lemma nonpositive_value_returns:
  assumes "scheduler a = ''multiprocessing''"
      and "mp_run_dependency_graph e (map job_node joblist) (workers a) \<le> 0"
  shows "run_anim_jobs e joblist a = Inr ()"
  using assms by (simp add: run_anim_jobs_def)

lemma nonpositive_value_proceeds:
  assumes "setup_ok e" and "work_set e a db \<noteq> []" and "\<not> recovery a"
      and "generate_joblist e (work_set e a db) None a = Inr joblist"
      and "scheduler a = ''multiprocessing''"
      and "mp_run_dependency_graph e (map job_node joblist) (workers a) \<le> 0"
  shows "subcmd_anim e a db =
           (case update_comparison_results e joblist (dedup_session e a db)
                   (get_version e (nucmer_exe a)) a of
              Inl x \<Rightarrow> Inl x
            | Inr s3 \<Rightarrow> Inr (update_comparison_matrices s3 a))"
  using assms nonpositive_value_returns [OF assms(5,6)] by (simp add: subcmd_anim_unfold)

text \<open>
  C4. The claim asks for a fatal error whenever the executor returns a cumulative value
  other than zero. The code raises only for a value greater than zero. With genomes A and
  B, an empty Comparison table, the multiprocessing scheduler and an executor that returns
  -9 (the return code of a command killed by signal 9), the job list holds the job of
  (A, B), \<^verbatim>\<open>subcmd_anim\<close> returns normally, one new Comparison is stored and the
  matrices of the run are written.
\<close>

theorem negative_total_taken_for_success:
  "scheduler example_args = ''multiprocessing''
   \<and> mp_run_dependency_graph negative_env (map job_node [job_AB]) (workers example_args) = - 9
   \<and> generate_joblist negative_env (work_set negative_env example_args []) None example_args
       = Inr [job_AB]
   \<and> \<not> isl (subcmd_anim negative_env example_args [])
   \<and> length (comparison_table (final_session (subcmd_anim negative_env example_args []))) = 1
   \<and> df_identity (the_run (final_session (subcmd_anim negative_env example_args []))) \<noteq> None"
proof -
  have ok: "setup_ok negative_env" by (simp add: setup_ok_def negative_env_def example_env_def)
  have w: "work_set negative_env example_args [] = [(genome_A, genome_B)]"
    by (simp add: work_set_def negative_env_def example_env_def)
  have nr: "\<not> recovery example_args" by (simp add: example_args_def)
  have g: "generate_joblist negative_env [(genome_A, genome_B)] None example_args = Inr [job_AB]"
    by (simp add: generate_joblist_def negative_env_def example_env_def example_args_def
      genome_A_def genome_B_def getitem_def str_split_def isspace_def
      expected_outfname_def job_AB_def)
  have j: "run_anim_jobs negative_env [job_AB] example_args = Inr ()"
    by (simp add: run_anim_jobs_def negative_env_def example_args_def)
  have h: "\<forall>j\<in>set [job_AB].
             parse_delta negative_env (outfile j) = Inr ((\<lambda>_. 4000000) j, (\<lambda>_. 20000) j) \<and>
             (\<lambda>_. 4000000::int) j \<noteq> 0 \<and> genome_length (job_query j) \<noteq> 0 \<and>
             genome_length (job_subject j) \<noteq> 0"
    by (simp add: negative_env_def example_env_def job_AB_def build_job_def genome_A_def
        genome_B_def)
  have u: "update_comparison_results negative_env [job_AB] s nv a =
        Inr (commit (foldl (\<lambda>s j. append_new (ingested nv a j 4000000 20000) s) s [job_AB]))"
    for s nv a
    using loop_prefix [OF h, of nv a "[]" s] by (simp add: update_comparison_results_def)
  have r: "subcmd_anim negative_env example_args [] =
     Inr (update_comparison_matrices
            (commit (append_new (ingested (get_version negative_env (nucmer_exe example_args))
                example_args job_AB 4000000 20000)
               (dedup_session negative_env example_args []))) example_args)"
    using ok w nr g j by (simp add: subcmd_anim_unfold u)
  have m: "mp_run_dependency_graph negative_env (map job_node [job_AB]) (workers example_args)
             = - 9"
    by (simp add: negative_env_def)
  have sc: "scheduler example_args = ''multiprocessing''" by (simp add: example_args_def)
  show ?thesis
    unfolding r using m sc
    by (simp add: w g final_session_def matrices_fields commit_def append_new_def
        dedup_session_fields)
qed

subsection \<open>A second run\<close>

lemma key_of_ingested:
  "key_of (ingested nv a j aln errs) = lookup_key nv a (job_pair j)"
  by (simp add: key_of_def query_id_def subject_id_def ingested_def lookup_key_def job_pair_def)

lemma loop_returns:
  "update_comparison_results_loop e nv a jl s = Inr s' \<Longrightarrow>
   \<exists>cs. pending s' = pending s @ cs \<and> comparison_table s' = comparison_table s
      \<and> map key_of cs = map (\<lambda>j. lookup_key nv a (job_pair j)) jl"
proof (induction jl arbitrary: s)
  case Nil
  then show ?case by simp
next
  case (Cons j jl)
  from loop_step_cases [of e nv a j jl s] Cons.prems
  obtain aln errs where u: "update_comparison_results_loop e nv a jl
        (append_new (ingested nv a j aln errs) s) = Inr s'"
    by auto
  from Cons.IH [OF u] obtain cs where
    "pending s' = pending (append_new (ingested nv a j aln errs) s) @ cs"
    "comparison_table s' = comparison_table (append_new (ingested nv a j aln errs) s)"
    "map key_of cs = map (\<lambda>j. lookup_key nv a (job_pair j)) jl" by blast
  then show ?case
    by (intro exI [of _ "ingested nv a j aln errs # cs"])
       (simp add: append_new_def key_of_ingested)
qed

lemma results_returns:
  assumes "update_comparison_results e jl s nv a = Inr s'"
  shows "pending s' = [] \<and>
    (\<exists>cs. comparison_table s' = comparison_table s @ pending s @ cs
       \<and> map key_of cs = map (\<lambda>j. lookup_key nv a (job_pair j)) jl)"
proof -
  from assms obtain s'' where l: "update_comparison_results_loop e nv a jl s = Inr s''"
    and c: "s' = commit s''"
    by (auto simp: update_comparison_results_def split: sum.splits)
  from loop_returns [OF l] c show ?thesis by (auto simp: commit_def)
qed

lemma not_recovered: "\<not> recovery a \<Longrightarrow> \<not> recovered_pair e ex a p"
  by (simp add: recovered_pair_def)

lemma returns_setup_ok: "subcmd_anim e a db = Inr s \<Longrightarrow> setup_ok e"
  unfolding subcmd_anim_def Let_def setup_ok_def
  by (auto split: if_splits)

lemma work_set_keys:
  "lookup_key (get_version e (nucmer_exe a)) a ` set (combinations2 (added_genomes e))
     \<subseteq> key_of ` set db \<union> lookup_key (get_version e (nucmer_exe a)) a ` set (work_set e a db)"
  by (auto simp: work_set_def)

lemma first_run_table:
  assumes "subcmd_anim e a db = Inr s1"
  shows "\<exists>cs. comparison_table s1 = db @ cs \<and>
           map key_of cs = map (lookup_key (get_version e (nucmer_exe a)) a) (work_set e a db)"
proof -
  let ?nv = "get_version e (nucmer_exe a)"
  have ok: "setup_ok e" using assms by (rule returns_setup_ok)
  show ?thesis
  proof (cases "work_set e a db = []")
    case True
    with assms ok have "s1 = update_comparison_matrices (dedup_session e a db) a"
      by (simp add: subcmd_anim_unfold)
    then have "comparison_table s1 = db"
      by (simp add: matrices_fields dedup_session_fields)
    with True show ?thesis by simp
  next
    case False
    have nr: "\<not> recovery a"
    proof
      assume "recovery a"
      with assms ok False show False by (simp add: subcmd_anim_unfold)
    qed
    from assms ok False nr obtain joblist s3 where
      g: "generate_joblist e (work_set e a db) None a = Inr joblist"
      and u: "update_comparison_results e joblist (dedup_session e a db) ?nv a = Inr s3"
      and s1: "s1 = update_comparison_matrices s3 a"
      by (auto simp: subcmd_anim_unfold split: sum.splits)
    have jp: "map job_pair joblist = work_set e a db"
      using generate_joblist_pairs [OF g] nr by (simp add: not_recovered)
    from results_returns [OF u] obtain cs where
      p: "pending s3 = []" and t: "comparison_table s3 = db @ cs"
      and k: "map key_of cs = map (\<lambda>j. lookup_key ?nv a (job_pair j)) joblist"
      by (auto simp: dedup_session_fields)
    have "map (\<lambda>j. lookup_key ?nv a (job_pair j)) joblist =
          map (lookup_key ?nv a) (map job_pair joblist)" by simp
    with k jp have "map key_of cs = map (lookup_key ?nv a) (work_set e a db)" by simp
    moreover have "comparison_table s1 = db @ cs"
      using s1 p t by (simp add: matrices_fields)
    ultimately show ?thesis by blast
  qed
qed

text \<open>
  C8. After a first run that returns normally, a second run on the same list of genomes,
  with the same nucmer version and the same maxmatch flag, finds for every candidate pair
  a stored Comparison whose key is the pair's lookup key (same query and subject order,
  program "nucmer", same version, no fragment size, same flag); its work set is empty, it
  returns normally, and the Comparison table is the one the first run left.
\<close>

theorem second_run_adds_nothing:
  assumes "subcmd_anim e a db = Inr s1"
      and "setup_ok e2"
      and "added_genomes e2 = added_genomes e"
      and "get_version e2 (nucmer_exe a2) = get_version e (nucmer_exe a)"
      and "args_maxmatch a2 = args_maxmatch a"
  shows "(\<forall>p\<in>set (combinations2 (added_genomes e2)).
            \<exists>c\<in>set (comparison_table s1).
              key_of c = (genome_id (fst p), genome_id (snd p), ''nucmer'',
                          get_version e2 (nucmer_exe a2), None, args_maxmatch a2))
       \<and> work_set e2 a2 (comparison_table s1) = []
       \<and> (\<exists>s2. subcmd_anim e2 a2 (comparison_table s1) = Inr s2
                \<and> comparison_table s2 = comparison_table s1)"
proof -
  let ?nv = "get_version e (nucmer_exe a)"
  from first_run_table [OF assms(1)] obtain cs where
    t: "comparison_table s1 = db @ cs"
    and k: "map key_of cs = map (lookup_key ?nv a) (work_set e a db)" by blast
  have kc: "key_of ` set cs = lookup_key ?nv a ` set (work_set e a db)"
    using k by (metis image_set)
  have "key_of ` set (comparison_table s1) = key_of ` set db \<union> key_of ` set cs"
    unfolding t by (simp add: image_Un)
  with work_set_keys [of e a db] kc
  have known: "lookup_key ?nv a ` set (combinations2 (added_genomes e))
                 \<subseteq> key_of ` set (comparison_table s1)"
    by simp
  have lk: "lookup_key (get_version e2 (nucmer_exe a2)) a2 p = lookup_key ?nv a p" for p
    using assms(4,5) by (simp add: lookup_key_def)
  have 1: "\<forall>p\<in>set (combinations2 (added_genomes e2)).
            \<exists>c\<in>set (comparison_table s1).
              key_of c = (genome_id (fst p), genome_id (snd p), ''nucmer'',
                          get_version e2 (nucmer_exe a2), None, args_maxmatch a2)"
  proof
    fix p assume "p \<in> set (combinations2 (added_genomes e2))"
    then have "lookup_key ?nv a p \<in> key_of ` set (comparison_table s1)"
      using known assms(3) by auto
    then show "\<exists>c\<in>set (comparison_table s1).
              key_of c = (genome_id (fst p), genome_id (snd p), ''nucmer'',
                          get_version e2 (nucmer_exe a2), None, args_maxmatch a2)"
      using lk [of p] by (auto simp: lookup_key_def)
  qed
  have 2: "work_set e2 a2 (comparison_table s1) = []"
    unfolding work_set_def lk assms(3) using known by (auto simp: filter_empty_conv)
  have 3: "subcmd_anim e2 a2 (comparison_table s1) =
             Inr (update_comparison_matrices (dedup_session e2 a2 (comparison_table s1)) a2)"
    using assms(2) 2 by (simp add: subcmd_anim_unfold)
  have "comparison_table (update_comparison_matrices (dedup_session e2 a2 (comparison_table s1)) a2)
          = comparison_table s1"
    by (simp add: matrices_fields dedup_session_fields)
  with 1 2 3 show ?thesis by simp
qed

lemma example_first_run:
  "subcmd_anim example_env example_args [] =
     Inr (update_comparison_matrices
            (commit (append_new (ingested ''3.1'' example_args job_AB 4000000 20000)
               (dedup_session example_env example_args []))) example_args)"
proof -
  have nr: "\<not> recovery example_args" by (simp add: example_args_def)
  have j: "run_anim_jobs example_env [job_AB] example_args = Inr ()"
    by (simp add: run_anim_jobs_def example_env_def example_args_def)
  have h: "\<forall>j\<in>set [job_AB].
             parse_delta example_env (outfile j) = Inr ((\<lambda>_. 4000000) j, (\<lambda>_. 20000) j) \<and>
             (\<lambda>_. 4000000::int) j \<noteq> 0 \<and> genome_length (job_query j) \<noteq> 0 \<and>
             genome_length (job_subject j) \<noteq> 0"
    by (simp add: example_env_def job_AB_def build_job_def genome_A_def genome_B_def)
  have u: "update_comparison_results example_env [job_AB] s nv a =
        Inr (commit (foldl (\<lambda>s j. append_new (ingested nv a j 4000000 20000) s) s [job_AB]))"
    for s nv a
    using loop_prefix [OF h, of nv a "[]" s] by (simp add: update_comparison_results_def)
  have v: "get_version example_env (nucmer_exe example_args) = ''3.1''"
    by (simp add: example_env_def)
  show ?thesis
    using example_setup_ok nr j
    by (simp add: subcmd_anim_unfold example_work_set example_joblist u v)
qed

theorem second_run_adds_nothing_witness:
  "\<exists>s1. subcmd_anim example_env example_args [] = Inr s1
      \<and> length (comparison_table s1) = 1
      \<and> work_set example_env example_args (comparison_table s1) = []
      \<and> (\<exists>s2. subcmd_anim example_env example_args (comparison_table s1) = Inr s2
               \<and> comparison_table s2 = comparison_table s1)"
proof -
  let ?s1 = "update_comparison_matrices
            (commit (append_new (ingested ''3.1'' example_args job_AB 4000000 20000)
               (dedup_session example_env example_args []))) example_args"
  have l: "length (comparison_table ?s1) = 1"
    by (simp add: matrices_fields commit_def append_new_def dedup_session_fields)
  from second_run_adds_nothing [OF example_first_run example_setup_ok refl refl refl] l
    example_first_run
  show ?thesis by (intro exI [of _ ?s1]) simp
qed

subsection \<open>The matrix synthesizer\<close>

lemma writes_keys: "map fst (writes f g cs) = concat (map cells_written cs)"
  by (induction cs) (simp_all add: writes_def cells_written_def)

lemma writes_Nil: "writes f g [] = []"
  by (simp add: writes_def)

lemma writes_Cons:
  "writes f g (c # cs) =
     ((query_id c, subject_id c), f c) # ((subject_id c, query_id c), g c) # writes f g cs"
  by (simp add: writes_def)

lemma final_frames_projections:
  "fr_identity (foldl add_comparison fr cs) =
     foldl apply_write (fr_identity fr) (writes identity identity cs)"
  "fr_coverage (foldl add_comparison fr cs) =
     foldl apply_write (fr_coverage fr) (writes cov_query cov_subject cs)"
  "fr_alnlength (foldl add_comparison fr cs) =
     foldl apply_write (fr_alnlength fr)
       (writes (\<lambda>c. real_of_int (aln_length c)) (\<lambda>c. real_of_int (aln_length c)) cs)"
  "fr_simerrors (foldl add_comparison fr cs) =
     foldl apply_write (fr_simerrors fr)
       (writes (\<lambda>c. real_of_int (sim_errs c)) (\<lambda>c. real_of_int (sim_errs c)) cs)"
  "fr_hadamard (foldl add_comparison fr cs) =
     foldl apply_write (fr_hadamard fr)
       (writes (\<lambda>c. identity c * cov_query c) (\<lambda>c. identity c * cov_subject c) cs)"
  by (induction cs arbitrary: fr)
     (simp_all add: writes_Nil writes_Cons add_comparison_def Let_def apply_write_def)

lemma apply_writes_value:
  "distinct (map fst ws) \<Longrightarrow> (k, v) \<in> set ws \<Longrightarrow>
   df_values (foldl apply_write df ws) k = Some v"
proof (induction ws arbitrary: df rule: rev_induct)
  case Nil
  then show ?case by simp
next
  case (snoc w ws)
  show ?case
  proof (cases "(k, v) = w")
    case True
    then show ?thesis by (auto simp: apply_write_def loc_set_def)
  next
    case False
    with snoc.prems have m: "(k, v) \<in> set ws" and d: "distinct (map fst ws)"
      and n: "fst w \<noteq> k" by (auto simp: image_iff)
    from snoc.IH [OF d m, of df] n show ?thesis
      by (simp add: apply_write_def loc_set_def)
  qed
qed

lemma apply_writes_other:
  "k \<notin> fst ` set ws \<Longrightarrow> df_values (foldl apply_write df ws) k = df_values df k"
  by (induction ws arbitrary: df rule: rev_induct) (auto simp: apply_write_def loc_set_def)

lemma apply_writes_axes:
  "\<forall>w\<in>set ws. fst (fst w) \<in> set (df_index df) \<and> snd (fst w) \<in> set (df_columns df) \<Longrightarrow>
   df_index (foldl apply_write df ws) = df_index df \<and>
   df_columns (foldl apply_write df ws) = df_columns df"
  by (induction ws arbitrary: df rule: rev_induct) (auto simp: apply_write_def loc_set_def)

lemma foldl_upd_const:
  "foldl (\<lambda>m rc. m(rc \<mapsto> v)) m xs k = (if k \<in> set xs then Some v else m k)"
  by (induction xs arbitrary: m) auto

lemma zip_same: "zip xs xs = map (\<lambda>x. (x, x)) xs"
  by (induction xs) auto

lemma fill_diagonal_new_frame:
  "df_index (fill_diagonal (new_frame ids) v) = ids"
  "df_columns (fill_diagonal (new_frame ids) v) = ids"
  "df_values (fill_diagonal (new_frame ids) v) (i, j) =
     (if i = j \<and> i \<in> set ids then Some v else None)"
  by (auto simp: fill_diagonal_def new_frame_def foldl_upd_const zip_same)

lemma genome_lengths_as_writes:
  "foldl set_genome_length df gs =
   foldl apply_write df
     (map (\<lambda>g. ((genome_id g, genome_id g), real_of_int (genome_length g))) gs)"
  by (induction gs arbitrary: df) (simp_all add: set_genome_length_def apply_write_def)

lemma initial_alnlength:
  assumes "distinct (map genome_id gs)"
  shows "df_index (foldl set_genome_length (new_frame (sort (map genome_id gs))) gs)
           = sort (map genome_id gs)"
    and "df_columns (foldl set_genome_length (new_frame (sort (map genome_id gs))) gs)
           = sort (map genome_id gs)"
    and "g \<in> set gs \<Longrightarrow>
         df_values (foldl set_genome_length (new_frame (sort (map genome_id gs))) gs)
           (genome_id g, genome_id g) = Some (real_of_int (genome_length g))"
    and "i \<noteq> j \<Longrightarrow>
         df_values (foldl set_genome_length (new_frame (sort (map genome_id gs))) gs) (i, j)
           = None"
proof -
  let ?ws = "map (\<lambda>g. ((genome_id g, genome_id g), real_of_int (genome_length g))) gs"
  let ?df = "new_frame (sort (map genome_id gs))"
  have ax: "\<forall>w\<in>set ?ws. fst (fst w) \<in> set (df_index ?df) \<and> snd (fst w) \<in> set (df_columns ?df)"
    by (auto simp: new_frame_def)
  from apply_writes_axes [OF ax]
  show "df_index (foldl set_genome_length ?df gs) = sort (map genome_id gs)"
    and "df_columns (foldl set_genome_length ?df gs) = sort (map genome_id gs)"
    by (simp_all add: genome_lengths_as_writes new_frame_def)
  have d: "distinct (map fst ?ws)"
  proof -
    have "distinct (map (\<lambda>i::int. (i, i)) (map genome_id gs))"
      using assms by (simp only: distinct_map) (simp add: inj_on_def)
    then show ?thesis by (simp add: comp_def)
  qed
  show "df_values (foldl set_genome_length ?df gs) (genome_id g, genome_id g)
          = Some (real_of_int (genome_length g))" if "g \<in> set gs"
  proof -
    from that have "((genome_id g, genome_id g), real_of_int (genome_length g)) \<in> set ?ws"
      by auto
    from apply_writes_value [OF d this] show ?thesis
      by (simp add: genome_lengths_as_writes)
  qed
  show "df_values (foldl set_genome_length ?df gs) (i, j) = None" if "i \<noteq> j"
  proof -
    from that have "(i, j) \<notin> fst ` set ?ws" by auto
    from apply_writes_other [OF this] show ?thesis
      by (simp add: genome_lengths_as_writes new_frame_def)
  qed
qed


lemma cells_written_off_diagonal:
  assumes "distinct (concat (map cells_written cs))"
  shows "(i, i) \<notin> set (concat (map cells_written cs))"
proof
  assume "(i, i) \<in> set (concat (map cells_written cs))"
  then obtain c where c: "c \<in> set cs" and m: "(i, i) \<in> set (cells_written c)" by auto
  from assms c have "distinct (cells_written c)" by (auto simp: distinct_concat_iff)
  with m show False by (auto simp: cells_written_def)
qed

lemma frame_after_comparisons:
  assumes "df_index D = ids" and "df_columns D = ids"
      and "\<forall>c\<in>set cs. query_id c \<in> set ids \<and> subject_id c \<in> set ids"
      and "distinct (concat (map cells_written cs))"
  shows "df_index (foldl apply_write D (writes f g cs)) = ids"
    and "df_columns (foldl apply_write D (writes f g cs)) = ids"
    and "c \<in> set cs \<Longrightarrow>
         df_values (foldl apply_write D (writes f g cs)) (query_id c, subject_id c) = Some (f c)"
    and "c \<in> set cs \<Longrightarrow>
         df_values (foldl apply_write D (writes f g cs)) (subject_id c, query_id c) = Some (g c)"
    and "(i, j) \<notin> set (concat (map cells_written cs)) \<Longrightarrow>
         df_values (foldl apply_write D (writes f g cs)) (i, j) = df_values D (i, j)"
proof -
  have ax: "\<forall>w\<in>set (writes f g cs).
              fst (fst w) \<in> set (df_index D) \<and> snd (fst w) \<in> set (df_columns D)"
    using assms(1-3) by (auto simp: writes_def)
  from apply_writes_axes [OF ax] assms(1,2)
  show "df_index (foldl apply_write D (writes f g cs)) = ids"
    and "df_columns (foldl apply_write D (writes f g cs)) = ids" by simp_all
  have d: "distinct (map fst (writes f g cs))"
    using assms(4) by (simp add: writes_keys)
  show "df_values (foldl apply_write D (writes f g cs)) (query_id c, subject_id c) = Some (f c)"
    if "c \<in> set cs"
  proof -
    from that have "((query_id c, subject_id c), f c) \<in> set (writes f g cs)"
      by (auto simp: writes_def)
    from apply_writes_value [OF d this] show ?thesis .
  qed
  show "df_values (foldl apply_write D (writes f g cs)) (subject_id c, query_id c) = Some (g c)"
    if "c \<in> set cs"
  proof -
    from that have "((subject_id c, query_id c), g c) \<in> set (writes f g cs)"
      by (auto simp: writes_def)
    from apply_writes_value [OF d this] show ?thesis .
  qed
  show "df_values (foldl apply_write D (writes f g cs)) (i, j) = df_values D (i, j)"
    if "(i, j) \<notin> set (concat (map cells_written cs))"
  proof -
    have "fst ` set (writes f g cs) = set (concat (map cells_written cs))"
      using writes_keys [of f g cs] by (metis set_map)
    with that have "(i, j) \<notin> fst ` set (writes f g cs)" by simp
    from apply_writes_other [OF this] show ?thesis .
  qed
qed

lemma initial_frames_fields:
  "fr_identity (initial_frames r) = fill_diagonal (new_frame (sort (map genome_id (run_genomes r)))) 1"
  "fr_coverage (initial_frames r) = fill_diagonal (new_frame (sort (map genome_id (run_genomes r)))) 1"
  "fr_simerrors (initial_frames r) = fill_diagonal (new_frame (sort (map genome_id (run_genomes r)))) 1"
  "fr_hadamard (initial_frames r) = fill_diagonal (new_frame (sort (map genome_id (run_genomes r)))) 1"
  "fr_alnlength (initial_frames r) =
     foldl set_genome_length (new_frame (sort (map genome_id (run_genomes r)))) (run_genomes r)"
  by (simp_all add: initial_frames_def Let_def)

text \<open>
  C5. For a run whose genomes have distinct identifiers and whose comparisons are between
  genomes of the run, at most one for each unordered pair and none of a genome with
  itself: after \<^verbatim>\<open>update_comparison_matrices\<close> the five matrices are square, indexed on
  both axes by the sorted genome identifiers; the diagonals of identity, coverage,
  similarity errors and Hadamard are 1.0 and the diagonal of the alignment lengths holds
  each genome's length; for every comparison (q, s) of the run identity, alignment length
  and similarity errors are written at [q,s] and [s,q], coverage[q,s] is the query
  coverage and coverage[s,q] the subject coverage, Hadamard[q,s] = identity * query
  coverage and Hadamard[s,q] = identity * subject coverage; and the cells of pairs with
  no comparison are unset.
\<close>

theorem matrices_after_update:
  assumes "distinct (map genome_id (run_genomes (the_run s)))"
      and "\<forall>c\<in>set (run_comparisons (the_run s)).
             query_id c \<in> genome_id ` set (run_genomes (the_run s)) \<and>
             subject_id c \<in> genome_id ` set (run_genomes (the_run s))"
      and "distinct (concat (map cells_written (run_comparisons (the_run s))))"
  shows "\<exists>I C A E H.
      df_identity (the_run (update_comparison_matrices s a)) = Some I
    \<and> df_coverage (the_run (update_comparison_matrices s a)) = Some C
    \<and> df_alnlength (the_run (update_comparison_matrices s a)) = Some A
    \<and> df_simerrors (the_run (update_comparison_matrices s a)) = Some E
    \<and> df_hadamard (the_run (update_comparison_matrices s a)) = Some H
    \<and> (\<forall>M\<in>set [I, C, A, E, H].
          df_index M = sort (map genome_id (run_genomes (the_run s))) \<and>
          df_columns M = sort (map genome_id (run_genomes (the_run s))) \<and>
          length (df_index M) = length (run_genomes (the_run s)))
    \<and> (\<forall>g\<in>set (run_genomes (the_run s)).
          df_values I (genome_id g, genome_id g) = Some 1 \<and>
          df_values C (genome_id g, genome_id g) = Some 1 \<and>
          df_values E (genome_id g, genome_id g) = Some 1 \<and>
          df_values H (genome_id g, genome_id g) = Some 1 \<and>
          df_values A (genome_id g, genome_id g) = Some (real_of_int (genome_length g)))
    \<and> (\<forall>c\<in>set (run_comparisons (the_run s)).
          df_values I (query_id c, subject_id c) = Some (identity c) \<and>
          df_values I (subject_id c, query_id c) = Some (identity c) \<and>
          df_values A (query_id c, subject_id c) = Some (real_of_int (aln_length c)) \<and>
          df_values A (subject_id c, query_id c) = Some (real_of_int (aln_length c)) \<and>
          df_values E (query_id c, subject_id c) = Some (real_of_int (sim_errs c)) \<and>
          df_values E (subject_id c, query_id c) = Some (real_of_int (sim_errs c)) \<and>
          df_values C (query_id c, subject_id c) = Some (cov_query c) \<and>
          df_values C (subject_id c, query_id c) = Some (cov_subject c) \<and>
          df_values H (query_id c, subject_id c) = Some (identity c * cov_query c) \<and>
          df_values H (subject_id c, query_id c) = Some (identity c * cov_subject c))
    \<and> (\<forall>i j. i \<noteq> j \<and>
          (\<forall>c\<in>set (run_comparisons (the_run s)).
             (query_id c, subject_id c) \<noteq> (i, j) \<and> (subject_id c, query_id c) \<noteq> (i, j)) \<longrightarrow>
          df_values I (i, j) = None \<and> df_values C (i, j) = None \<and> df_values A (i, j) = None \<and>
          df_values E (i, j) = None \<and> df_values H (i, j) = None)"
proof -
  let ?r = "the_run s"
  let ?gs = "run_genomes ?r"
  let ?cs = "run_comparisons ?r"
  let ?ids = "sort (map genome_id ?gs)"
  let ?I = "fr_identity (final_frames ?r)"
  let ?C = "fr_coverage (final_frames ?r)"
  let ?A = "fr_alnlength (final_frames ?r)"
  let ?E = "fr_simerrors (final_frames ?r)"
  let ?H = "fr_hadamard (final_frames ?r)"
  let ?D = "fill_diagonal (new_frame ?ids) 1"
  let ?L = "foldl set_genome_length (new_frame ?ids) ?gs"
  have mem: "\<forall>c\<in>set ?cs. query_id c \<in> set ?ids \<and> subject_id c \<in> set ?ids"
    using assms(2) by simp
  note dist = assms(3)
  have I: "?I = foldl apply_write ?D (writes identity identity ?cs)"
    and C: "?C = foldl apply_write ?D (writes cov_query cov_subject ?cs)"
    and E: "?E = foldl apply_write ?D
          (writes (\<lambda>c. real_of_int (sim_errs c)) (\<lambda>c. real_of_int (sim_errs c)) ?cs)"
    and H: "?H = foldl apply_write ?D
          (writes (\<lambda>c. identity c * cov_query c) (\<lambda>c. identity c * cov_subject c) ?cs)"
    and A: "?A = foldl apply_write ?L
          (writes (\<lambda>c. real_of_int (aln_length c)) (\<lambda>c. real_of_int (aln_length c)) ?cs)"
    by (simp_all add: final_frames_def final_frames_projections initial_frames_fields)
  note fD = frame_after_comparisons [OF fill_diagonal_new_frame(1) fill_diagonal_new_frame(2)
      mem dist]
  note fL = frame_after_comparisons [OF initial_alnlength(1) [OF assms(1)]
      initial_alnlength(2) [OF assms(1)] mem dist]
  have axes: "\<forall>M\<in>set [?I, ?C, ?A, ?E, ?H].
          df_index M = ?ids \<and> df_columns M = ?ids \<and> length (df_index M) = length ?gs"
    unfolding I C E H A by (simp add: fD(1,2) fL(1,2))
  have diag: "df_values ?I (genome_id g, genome_id g) = Some 1 \<and>
          df_values ?C (genome_id g, genome_id g) = Some 1 \<and>
          df_values ?E (genome_id g, genome_id g) = Some 1 \<and>
          df_values ?H (genome_id g, genome_id g) = Some 1 \<and>
          df_values ?A (genome_id g, genome_id g) = Some (real_of_int (genome_length g))"
    if g: "g \<in> set ?gs" for g
  proof -
    have n: "(genome_id g, genome_id g) \<notin> set (concat (map cells_written ?cs))"
      using dist by (rule cells_written_off_diagonal)
    have "df_values ?D (genome_id g, genome_id g) = Some 1"
      using g by (simp add: fill_diagonal_new_frame)
    moreover have "df_values ?L (genome_id g, genome_id g) = Some (real_of_int (genome_length g))"
      using initial_alnlength(3) [OF assms(1) g] .
    ultimately show ?thesis
      unfolding I C E H A by (simp add: fD(5) [OF n] fL(5) [OF n])
  qed
  have cmp: "df_values ?I (query_id c, subject_id c) = Some (identity c) \<and>
          df_values ?I (subject_id c, query_id c) = Some (identity c) \<and>
          df_values ?A (query_id c, subject_id c) = Some (real_of_int (aln_length c)) \<and>
          df_values ?A (subject_id c, query_id c) = Some (real_of_int (aln_length c)) \<and>
          df_values ?E (query_id c, subject_id c) = Some (real_of_int (sim_errs c)) \<and>
          df_values ?E (subject_id c, query_id c) = Some (real_of_int (sim_errs c)) \<and>
          df_values ?C (query_id c, subject_id c) = Some (cov_query c) \<and>
          df_values ?C (subject_id c, query_id c) = Some (cov_subject c) \<and>
          df_values ?H (query_id c, subject_id c) = Some (identity c * cov_query c) \<and>
          df_values ?H (subject_id c, query_id c) = Some (identity c * cov_subject c)"
    if c: "c \<in> set ?cs" for c
    unfolding I C E H A by (simp add: fD(3) [OF c] fD(4) [OF c] fL(3) [OF c] fL(4) [OF c])
  have unset: "df_values ?I (i, j) = None \<and> df_values ?C (i, j) = None \<and>
          df_values ?A (i, j) = None \<and> df_values ?E (i, j) = None \<and> df_values ?H (i, j) = None"
    if ne: "i \<noteq> j"
      and no: "\<forall>c\<in>set ?cs. (query_id c, subject_id c) \<noteq> (i, j) \<and>
                 (subject_id c, query_id c) \<noteq> (i, j)"
    for i j
  proof -
    have n: "(i, j) \<notin> set (concat (map cells_written ?cs))"
      using no by (auto simp: cells_written_def)
    have "df_values ?D (i, j) = None" using ne by (simp add: fill_diagonal_new_frame)
    moreover have "df_values ?L (i, j) = None"
      using initial_alnlength(4) [OF assms(1) ne] .
    ultimately show ?thesis
      unfolding I C E H A by (simp add: fD(5) [OF n] fL(5) [OF n])
  qed
  show ?thesis
    apply (rule exI [of _ ?I], rule exI [of _ ?C], rule exI [of _ ?A], rule exI [of _ ?E],
           rule exI [of _ ?H])
    apply (intro conjI)
           apply (simp add: matrices_fields)
          apply (simp add: matrices_fields)
         apply (simp add: matrices_fields)
        apply (simp add: matrices_fields)
       apply (simp add: matrices_fields)
      apply (rule axes)
     apply (intro ballI)
     apply (erule diag)
    apply (intro ballI)
    apply (erule cmp)
    apply (intro allI impI)
    apply (erule conjE)
    apply (erule (1) unset)
    done
qed


theorem matrices_after_update_witness:
  "\<exists>I C A E H.
      df_identity (the_run (update_comparison_matrices matrix_session example_args)) = Some I
    \<and> df_coverage (the_run (update_comparison_matrices matrix_session example_args)) = Some C
    \<and> df_alnlength (the_run (update_comparison_matrices matrix_session example_args)) = Some A
    \<and> df_simerrors (the_run (update_comparison_matrices matrix_session example_args)) = Some E
    \<and> df_hadamard (the_run (update_comparison_matrices matrix_session example_args)) = Some H
    \<and> df_index I = [1, 2, 3] \<and> df_columns I = [1, 2, 3]
    \<and> df_values I (1, 1) = Some 1 \<and> df_values A (3, 3) = Some 5200000
    \<and> df_values I (1, 2) = Some (199 / 200) \<and> df_values I (2, 1) = Some (199 / 200)
    \<and> df_values C (1, 2) = Some (4 / 5) \<and> df_values C (2, 1) = Some (5 / 6)
    \<and> df_values A (1, 2) = Some 4000000 \<and> df_values E (2, 1) = Some 20000
    \<and> df_values H (1, 2) = Some (199 / 200 * (4 / 5))
    \<and> df_values H (2, 1) = Some (199 / 200 * (5 / 6))
    \<and> df_values I (1, 3) = None \<and> df_values H (3, 2) = None"
proof -
  have g: "run_genomes (the_run matrix_session) = [genome_C, genome_A, genome_B]"
    and c: "run_comparisons (the_run matrix_session) = [comparison_AB]"
    by (simp_all add: matrix_session_def)
  have q: "query_id comparison_AB = 1" and sb: "subject_id comparison_AB = 2"
    by (simp_all add: query_id_def subject_id_def comparison_AB_def genome_A_def genome_B_def)
  have ids: "genome_id genome_A = 1" "genome_id genome_B = 2" "genome_id genome_C = 3"
    by (simp_all add: genome_A_def genome_B_def genome_C_def)
  have h1: "distinct (map genome_id (run_genomes (the_run matrix_session)))"
    by (simp add: g ids)
  have h2: "\<forall>c\<in>set (run_comparisons (the_run matrix_session)).
             query_id c \<in> genome_id ` set (run_genomes (the_run matrix_session)) \<and>
             subject_id c \<in> genome_id ` set (run_genomes (the_run matrix_session))"
    by (simp add: g c q sb ids)
  have h3: "distinct (concat (map cells_written (run_comparisons (the_run matrix_session))))"
    by (simp add: c cells_written_def q sb)
  from matrices_after_update [OF h1 h2 h3, of example_args]
  obtain I C A E H where
    f: "df_identity (the_run (update_comparison_matrices matrix_session example_args)) = Some I"
       "df_coverage (the_run (update_comparison_matrices matrix_session example_args)) = Some C"
       "df_alnlength (the_run (update_comparison_matrices matrix_session example_args)) = Some A"
       "df_simerrors (the_run (update_comparison_matrices matrix_session example_args)) = Some E"
       "df_hadamard (the_run (update_comparison_matrices matrix_session example_args)) = Some H"
    and ax: "\<forall>M\<in>set [I, C, A, E, H].
          df_index M = sort (map genome_id (run_genomes (the_run matrix_session))) \<and>
          df_columns M = sort (map genome_id (run_genomes (the_run matrix_session))) \<and>
          length (df_index M) = length (run_genomes (the_run matrix_session))"
    and dg: "\<forall>g\<in>set (run_genomes (the_run matrix_session)).
          df_values I (genome_id g, genome_id g) = Some 1 \<and>
          df_values C (genome_id g, genome_id g) = Some 1 \<and>
          df_values E (genome_id g, genome_id g) = Some 1 \<and>
          df_values H (genome_id g, genome_id g) = Some 1 \<and>
          df_values A (genome_id g, genome_id g) = Some (real_of_int (genome_length g))"
    and cm: "\<forall>c\<in>set (run_comparisons (the_run matrix_session)).
          df_values I (query_id c, subject_id c) = Some (identity c) \<and>
          df_values I (subject_id c, query_id c) = Some (identity c) \<and>
          df_values A (query_id c, subject_id c) = Some (real_of_int (aln_length c)) \<and>
          df_values A (subject_id c, query_id c) = Some (real_of_int (aln_length c)) \<and>
          df_values E (query_id c, subject_id c) = Some (real_of_int (sim_errs c)) \<and>
          df_values E (subject_id c, query_id c) = Some (real_of_int (sim_errs c)) \<and>
          df_values C (query_id c, subject_id c) = Some (cov_query c) \<and>
          df_values C (subject_id c, query_id c) = Some (cov_subject c) \<and>
          df_values H (query_id c, subject_id c) = Some (identity c * cov_query c) \<and>
          df_values H (subject_id c, query_id c) = Some (identity c * cov_subject c)"
    and un: "\<forall>i j. i \<noteq> j \<and>
          (\<forall>c\<in>set (run_comparisons (the_run matrix_session)).
             (query_id c, subject_id c) \<noteq> (i, j) \<and> (subject_id c, query_id c) \<noteq> (i, j)) \<longrightarrow>
          df_values I (i, j) = None \<and> df_values C (i, j) = None \<and> df_values A (i, j) = None \<and>
          df_values E (i, j) = None \<and> df_values H (i, j) = None"
    by blast
  have s: "sort (map genome_id (run_genomes (the_run matrix_session))) = [1, 2, 3]"
    by (simp add: g ids)
  from ax s have a1: "df_index I = [1, 2, 3]" "df_columns I = [1, 2, 3]" by simp_all
  from dg have d1: "df_values I (1, 1) = Some 1" "df_values A (3, 3) = Some 5200000"
    by (simp_all add: g ids genome_C_def)
  have fields: "identity comparison_AB = 199 / 200" "cov_query comparison_AB = 4 / 5"
    "cov_subject comparison_AB = 5 / 6" "aln_length comparison_AB = 4000000"
    "sim_errs comparison_AB = 20000"
    by (simp_all add: comparison_AB_def)
  from cm have c1: "df_values I (1, 2) = Some (199 / 200)" "df_values I (2, 1) = Some (199 / 200)"
    "df_values C (1, 2) = Some (4 / 5)" "df_values C (2, 1) = Some (5 / 6)"
    "df_values A (1, 2) = Some 4000000" "df_values E (2, 1) = Some 20000"
    "df_values H (1, 2) = Some (199 / 200 * (4 / 5))"
    "df_values H (2, 1) = Some (199 / 200 * (5 / 6))"
    by (simp_all add: c q sb fields)
  from un [rule_format, of 1 3] have u1: "df_values I (1, 3) = None" by (simp add: c q sb)
  from un [rule_format, of 3 2] have u2: "df_values H (3, 2) = None" by (simp add: c q sb)
  from f a1 d1 c1 u1 u2 show ?thesis by blast
qed

subsection \<open>The run that the orchestrator hands to the matrix synthesizer\<close>

text \<open>
  When the genomes of the run have distinct identifiers, every call of
  \<^verbatim>\<open>update_comparison_matrices\<close> that precedes a normal return of \<^verbatim>\<open>subcmd_anim\<close> is on
  a run that meets the three hypotheses of the theorem on the matrices: its comparisons
  are those of the candidate pairs, one for each.
\<close>

lemma combinations2_members:
  "(x, y) \<in> set (combinations2 xs) \<Longrightarrow> x \<in> set xs \<and> y \<in> set xs"
  by (induction xs) auto

lemma combinations2_distinct:
  "distinct xs \<Longrightarrow> distinct (combinations2 xs)"
proof (induction xs)
  case Nil
  then show ?case by simp
next
  case (Cons x xs)
  have "distinct (map (Pair x) xs)"
    using Cons.prems by (simp add: distinct_map inj_on_def)
  moreover have "set (map (Pair x) xs) \<inter> set (combinations2 xs) = {}"
    using Cons.prems combinations2_members [of x _ xs] by auto
  ultimately show ?case using Cons by simp
qed

lemma combinations2_no_loop_or_reverse:
  "distinct xs \<Longrightarrow> (x, y) \<in> set (combinations2 xs) \<Longrightarrow>
   x \<noteq> y \<and> (y, x) \<notin> set (combinations2 xs)"
proof (induction xs)
  case Nil
  then show ?case by simp
next
  case (Cons z zs)
  from Cons.prems(2) have "(x = z \<and> y \<in> set zs) \<or> (x, y) \<in> set (combinations2 zs)"
    by auto
  then show ?case
  proof
    assume a: "x = z \<and> y \<in> set zs"
    with Cons.prems(1) have "x \<noteq> y" by auto
    moreover have "(y, x) \<notin> set (combinations2 (z # zs))"
      using a Cons.prems(1) combinations2_members [of y x zs] by auto
    ultimately show ?thesis by simp
  next
    assume a: "(x, y) \<in> set (combinations2 zs)"
    with Cons have ih: "x \<noteq> y \<and> (y, x) \<notin> set (combinations2 zs)" by simp
    from combinations2_members [OF a] Cons.prems(1) have "y \<noteq> z" by auto
    with ih show ?thesis by auto
  qed
qed

lemma combinations2_map: "combinations2 (map f xs) = map (\<lambda>p. (f (fst p), f (snd p))) (combinations2 xs)"
  by (induction xs) (simp_all add: comp_def)

lemma distinct_cells_written:
  assumes "distinct (map id_pair cs)"
      and "\<forall>c\<in>set cs. query_id c \<noteq> subject_id c \<and>
             (subject_id c, query_id c) \<notin> id_pair ` set cs"
  shows "distinct (concat (map cells_written cs))"
  using assms
proof (induction cs)
  case Nil
  then show ?case by simp
next
  case (Cons c cs)
  have ih: "distinct (concat (map cells_written cs))"
    using Cons by auto
  have d: "distinct (cells_written c)"
    using Cons.prems(2) by (auto simp: cells_written_def)
  have "k \<notin> set (cells_written c)" if "k \<in> set (concat (map cells_written cs))" for k
  proof -
    from that obtain c' where c': "c' \<in> set cs" and k: "k \<in> set (cells_written c')" by auto
    from Cons.prems(1) c' have n1: "id_pair c \<noteq> id_pair c'" by auto
    from Cons.prems(2) c' have n2: "(subject_id c', query_id c') \<noteq> id_pair c" by auto
    from Cons.prems(2) c' have n3: "(subject_id c, query_id c) \<noteq> id_pair c'" by auto
    from k n1 n2 n3 show ?thesis by (auto simp: cells_written_def id_pair_def)
  qed
  then have "set (cells_written c) \<inter> set (concat (map cells_written cs)) = {}" by blast
  with ih d show ?case by simp
qed


lemma key_gives_ids: "key_of c = lookup_key nv a p \<Longrightarrow> id_pair c = genome_ids p"
  by (simp add: key_of_def lookup_key_def id_pair_def genome_ids_def)

lemma map_keys_give_ids:
  "map key_of cs = map (lookup_key nv a) ps \<Longrightarrow> map id_pair cs = map genome_ids ps"
proof (induction cs arbitrary: ps)
  case Nil
  then show ?case by simp
next
  case (Cons c cs)
  then obtain p ps' where ps: "ps = p # ps'" by (cases ps) auto
  with Cons.prems have "key_of c = lookup_key nv a p"
    and "map key_of cs = map (lookup_key nv a) ps'" by simp_all
  with Cons.IH [of ps'] ps show ?case by (simp add: key_gives_ids)
qed

lemma reused_ids:
  "map id_pair (reused e a db) =
   map genome_ids
     (filter (\<lambda>p. lookup_key (get_version e (nucmer_exe a)) a p \<in> key_of ` set db)
        (combinations2 (added_genomes e)))"
proof -
  let ?nv = "get_version e (nucmer_exe a)"
  have "id_pair (the (existing_comparisons db (lookup_key ?nv a p))) = genome_ids p"
    if "lookup_key ?nv a p \<in> key_of ` set db" for p
  proof -
    from that have "existing_comparisons db (lookup_key ?nv a p) \<noteq> None"
      by (simp add: existing_comparisons_None)
    then obtain c where c: "existing_comparisons db (lookup_key ?nv a p) = Some c" by auto
    from existing_comparisons_Some [OF c] have "key_of c = lookup_key ?nv a p" by simp
    with c show ?thesis by (simp add: key_gives_ids)
  qed
  then show ?thesis by (simp add: reused_def comp_def cong: map_cong)
qed

lemma loop_returns_run:
  "update_comparison_results_loop e nv a jl s = Inr s' \<Longrightarrow>
   \<exists>cs. run_comparisons (the_run s') = run_comparisons (the_run s) @ cs
      \<and> run_genomes (the_run s') = run_genomes (the_run s)
      \<and> map key_of cs = map (lookup_key nv a) (map job_pair jl)"
proof (induction jl arbitrary: s)
  case Nil
  then show ?case by simp
next
  case (Cons j jl)
  from loop_step_cases [of e nv a j jl s] Cons.prems
  obtain aln errs where u: "update_comparison_results_loop e nv a jl
        (append_new (ingested nv a j aln errs) s) = Inr s'"
    by auto
  from Cons.IH [OF u] obtain cs where
    "run_comparisons (the_run s') =
       run_comparisons (the_run (append_new (ingested nv a j aln errs) s)) @ cs"
    "run_genomes (the_run s') = run_genomes (the_run (append_new (ingested nv a j aln errs) s))"
    "map key_of cs = map (lookup_key nv a) (map job_pair jl)" by blast
  then show ?case
    by (intro exI [of _ "ingested nv a j aln errs # cs"])
       (simp add: append_new_def key_of_ingested)
qed

lemma returned_run:
  assumes "subcmd_anim e a db = Inr s"
  shows "\<exists>s'. s = update_comparison_matrices s' a
           \<and> run_genomes (the_run s') = added_genomes e
           \<and> map id_pair (run_comparisons (the_run s')) =
               map genome_ids
                 (filter (\<lambda>p. lookup_key (get_version e (nucmer_exe a)) a p \<in> key_of ` set db)
                    (combinations2 (added_genomes e)) @ work_set e a db)"
proof -
  let ?nv = "get_version e (nucmer_exe a)"
  have ok: "setup_ok e" using assms by (rule returns_setup_ok)
  show ?thesis
  proof (cases "work_set e a db = []")
    case True
    with assms ok have "s = update_comparison_matrices (dedup_session e a db) a"
      by (simp add: subcmd_anim_unfold)
    with True show ?thesis
      by (intro exI [of _ "dedup_session e a db"]) (simp add: dedup_session_fields reused_ids)
  next
    case False
    have nr: "\<not> recovery a"
    proof
      assume "recovery a"
      with assms ok False show False by (simp add: subcmd_anim_unfold)
    qed
    from assms ok False nr obtain joblist s3 where
      g: "generate_joblist e (work_set e a db) None a = Inr joblist"
      and u: "update_comparison_results e joblist (dedup_session e a db) ?nv a = Inr s3"
      and s: "s = update_comparison_matrices s3 a"
      by (auto simp: subcmd_anim_unfold split: sum.splits)
    have jp: "map job_pair joblist = work_set e a db"
      using generate_joblist_pairs [OF g] nr by (simp add: not_recovered)
    from u obtain s'' where l: "update_comparison_results_loop e ?nv a joblist
        (dedup_session e a db) = Inr s''" and c: "s3 = commit s''"
      by (auto simp: update_comparison_results_def split: sum.splits)
    from loop_returns_run [OF l] obtain cs where
      rc: "run_comparisons (the_run s'') = reused e a db @ cs"
      and rg: "run_genomes (the_run s'') = added_genomes e"
      and k: "map key_of cs = map (lookup_key ?nv a) (map job_pair joblist)"
      by (auto simp: dedup_session_fields)
    from map_keys_give_ids [OF k] jp have "map id_pair cs = map genome_ids (work_set e a db)"
      by simp
    with rc rg c s show ?thesis
      by (intro exI [of _ s3]) (simp add: commit_def reused_ids)
  qed
qed

lemma returned_run_well_formed:
  assumes "subcmd_anim e a db = Inr s" and "distinct (map genome_id (added_genomes e))"
  shows "\<exists>s'. s = update_comparison_matrices s' a
           \<and> distinct (map genome_id (run_genomes (the_run s')))
           \<and> (\<forall>c\<in>set (run_comparisons (the_run s')).
                 query_id c \<in> genome_id ` set (run_genomes (the_run s')) \<and>
                 subject_id c \<in> genome_id ` set (run_genomes (the_run s')))
           \<and> distinct (concat (map cells_written (run_comparisons (the_run s'))))"
proof -
  let ?K = "\<lambda>p. lookup_key (get_version e (nucmer_exe a)) a p \<in> key_of ` set db"
  let ?gs = "added_genomes e"
  let ?ps = "combinations2 ?gs"
  from returned_run [OF assms(1)] obtain s' where
    s: "s = update_comparison_matrices s' a"
    and g: "run_genomes (the_run s') = ?gs"
    and m: "map id_pair (run_comparisons (the_run s')) =
              map genome_ids (filter ?K ?ps @ work_set e a db)" by blast
  let ?cs = "run_comparisons (the_run s')"
  have all: "map genome_ids ?ps = combinations2 (map genome_id ?gs)"
    by (simp add: combinations2_map genome_ids_def)
  have dall: "distinct (map genome_ids ?ps)"
    unfolding all using assms(2) by (rule combinations2_distinct)
  have split: "filter ?K ?ps @ work_set e a db = filter ?K ?ps @ filter (\<lambda>p. \<not> ?K p) ?ps"
    by (simp add: work_set_def)
  have sets: "set (map id_pair ?cs) = set (combinations2 (map genome_id ?gs))"
  proof -
    have "set (map id_pair ?cs) = genome_ids ` set (filter ?K ?ps @ filter (\<lambda>p. \<not> ?K p) ?ps)"
      unfolding m split by (simp add: image_Un)
    also have "\<dots> = genome_ids ` set ?ps" by (rule arg_cong [of _ _ "(`) genome_ids"]) auto
    also have "\<dots> = set (combinations2 (map genome_id ?gs))"
      using all by (metis set_map)
    finally show ?thesis .
  qed
  have d: "distinct (map id_pair ?cs)"
  proof -
    from dall have dp: "distinct ?ps" and inj: "inj_on genome_ids (set ?ps)"
      by (simp_all add: distinct_map)
    have "distinct (filter ?K ?ps @ filter (\<lambda>p. \<not> ?K p) ?ps)"
      using dp by auto
    moreover have "inj_on genome_ids (set (filter ?K ?ps @ filter (\<lambda>p. \<not> ?K p) ?ps))"
      using inj by (rule inj_on_subset) auto
    ultimately show ?thesis unfolding m split by (simp only: distinct_map)
  qed
  have w: "query_id c \<noteq> subject_id c \<and> (subject_id c, query_id c) \<notin> id_pair ` set ?cs
           \<and> query_id c \<in> genome_id ` set ?gs \<and> subject_id c \<in> genome_id ` set ?gs"
    if c: "c \<in> set ?cs" for c
  proof -
    from c have "id_pair c \<in> set (map id_pair ?cs)" by simp
    with sets have i: "(query_id c, subject_id c) \<in> set (combinations2 (map genome_id ?gs))"
      by (simp add: id_pair_def)
    from combinations2_no_loop_or_reverse [OF assms(2) i] combinations2_members [OF i] sets
    show ?thesis by auto
  qed
  have "distinct (concat (map cells_written ?cs))"
    using d w by (intro distinct_cells_written) auto
  with s g assms(2) w show ?thesis
    by (intro exI [of _ s']) auto
qed

end
